theory Spec2Isabelle
  imports Complex_Main "HOL-Library.Sublist"
begin

section \<open>Change-order submission: checklist validator and lifecycle store\<close>

text \<open>
  A shallow embedding of \<^verbatim>\<open>src/lib/change-order-schema.ts\<close> (the checklist validator
  and the in-memory store with its decision state machine) and of the route handlers
  \<^verbatim>\<open>api/change-orders/submit/route.ts\<close>, \<^verbatim>\<open>api/change-orders/[id]/route.ts\<close> and
  \<^verbatim>\<open>api/change-orders/[id]/decision/route.ts\<close>.

  Conventions of the embedding:
  \<^item> a JavaScript \<^verbatim>\<open>number\<close> of a change-order input is a \<open>number\<close>, an IEEE 754
    double with the sum, quotient and comparisons of the language; the approved amount,
    which arrives as a JSON number and is only stored and formatted, is the \<open>real\<close> it
    denotes; a millisecond time stamp is an \<open>int\<close>;
  \<^item> a JavaScript string is a \<open>string\<close>, one \<open>char\<close> per code unit;
  \<^item> an optional field \<^verbatim>\<open>f?: T\<close> is a \<open>T option\<close>, \<^verbatim>\<open>undefined\<close> being \<open>None\<close>;
  \<^item> the module-level array \<^verbatim>\<open>store\<close> is a list that every operation takes and returns;
  \<^item> every reading of the clock (\<^verbatim>\<open>Date.now()\<close>, \<^verbatim>\<open>new Date().toISOString()\<close>) and of
    \<^verbatim>\<open>Math.random()\<close> is an argument of the operation that makes it, one argument per
    reading, in the order of the source;
  \<^item> the built-ins \<^verbatim>\<open>new Date(s).getTime()\<close> and \<^verbatim>\<open>Number.prototype.toFixed(2)\<close>, the
    e-mail grammar test and the mail transport are arguments as well.
\<close>

subsection \<open>Strings\<close>

text \<open>\<^verbatim>\<open>String(n)\<close> for a natural number and for an integer, as template literals print them.\<close>

definition digitChar :: "nat \<Rightarrow> char" where
  "digitChar d = ''0123456789'' ! d"

fun showNat :: "nat \<Rightarrow> string" where
  "showNat n = (if n < 10 then [digitChar n] else showNat (n div 10) @ [digitChar (n mod 10)])"

declare showNat.simps [simp del]

definition showInt :: "int \<Rightarrow> string" where
  "showInt i = (if i < 0 then CHR ''-'' # showNat (nat (- i)) else showNat (nat i))"

text \<open>
  \<^verbatim>\<open>String.prototype.trim\<close>: the white space and line terminators of ECMAScript among the
  code units below 256 (tab, line feed, vertical tab, form feed, carriage return, space,
  no-break space).
\<close>

definition isWhiteSpace :: "char \<Rightarrow> bool" where
  "isWhiteSpace c = (c \<in> {CHR 0x09, CHR 0x0A, CHR 0x0B, CHR 0x0C, CHR 0x0D, CHR 0x20, CHR 0xA0})"

definition trim :: "string \<Rightarrow> string" where
  "trim s = rev (dropWhile isWhiteSpace (rev (dropWhile isWhiteSpace s)))"

text \<open>\<^verbatim>\<open>s || d\<close> on strings: the empty string is falsy.\<close>

definition orElse :: "string \<Rightarrow> string \<Rightarrow> string" where
  "orElse s d = (if s = [] then d else s)"

text \<open>\<^verbatim>\<open>s.replaceAll(c, rep)\<close> for a one-character pattern \<open>c\<close>.\<close>

definition replaceAll :: "char \<Rightarrow> string \<Rightarrow> string \<Rightarrow> string" where
  "replaceAll c rep s = concat (map (\<lambda>x. if x = c then rep else [x]) s)"

text \<open>\<^verbatim>\<open>xs.join(sep)\<close>.\<close>

fun join :: "string \<Rightarrow> string list \<Rightarrow> string" where
  "join sep [] = []"
| "join sep [x] = x"
| "join sep (x # y # ys) = x @ sep @ join sep (y # ys)"

subsection \<open>Numbers\<close>

text \<open>
  The values of an IEEE 754 double: not-a-number, the two infinities, negative zero, and
  the finite values with positive zero, \<open>Fin x\<close> for the real \<open>x\<close> that the double denotes.
\<close>

datatype number = NaN | Infinity | NegInfinity | NegZero | Fin real

fun signBit :: "number \<Rightarrow> bool" where
  "signBit NegInfinity = True"
| "signBit NegZero = True"
| "signBit (Fin x) = (x < 0)"
| "signBit Infinity = False"
| "signBit NaN = False"

fun isInfinite :: "number \<Rightarrow> bool" where
  "isInfinite Infinity = True"
| "isInfinite NegInfinity = True"
| "isInfinite x = False"

fun isZero :: "number \<Rightarrow> bool" where
  "isZero NegZero = True"
| "isZero (Fin x) = (x = 0)"
| "isZero x = False"

fun realValue :: "number \<Rightarrow> real" where
  "realValue (Fin x) = x"
| "realValue x = 0"

definition signedZero :: "bool \<Rightarrow> number" where
  "signedZero negative = (if negative then NegZero else Fin 0)"

definition signedInfinity :: "bool \<Rightarrow> number" where
  "signedInfinity negative = (if negative then NegInfinity else Infinity)"

text \<open>
  Rounding to the nearest double, ties to even. Below \<open>minNormal\<close> \<open>= 2\<^sup>-\<^sup>1\<^sup>0\<^sup>2\<^sup>2\<close> the
  doubles are the multiples of \<open>minSubnormal\<close> \<open>= 2\<^sup>-\<^sup>1\<^sup>0\<^sup>7\<^sup>4\<close>; from there on a
  magnitude \<open>m\<close> with \<open>2\<^sup>e \<le> m < 2\<^sup>e\<^sup>+\<^sup>1\<close> is rounded to a multiple of \<open>2\<^sup>e\<^sup>-\<^sup>5\<^sup>2\<close>, and a
  result of \<open>2\<^sup>1\<^sup>0\<^sup>2\<^sup>4\<close> or more is an infinity.
\<close>

definition roundHalfEven :: "real \<Rightarrow> real" where
  "roundHalfEven t =
     (let f = \<lfloor>t\<rfloor> in
      if t - of_int f < 1 / 2 then of_int f
      else if t - of_int f > 1 / 2 then of_int f + 1
      else if even f then of_int f else of_int f + 1)"

definition minNormal :: real where
  "minNormal = 1 / 2 ^ 1022"

definition minSubnormal :: real where
  "minSubnormal = 1 / 2 ^ 1074"

definition overflowThreshold :: real where
  "overflowThreshold = 2 ^ 1024"

definition quantum :: "real \<Rightarrow> real" where
  "quantum m = (if m < minNormal then minSubnormal else 2 powr (of_int \<lfloor>log 2 m\<rfloor> - 52))"

definition roundNearest :: "real \<Rightarrow> number" where
  "roundNearest x =
     (let m = \<bar>x\<bar>;
          r = roundHalfEven (m / quantum m) * quantum m
      in if r \<ge> overflowThreshold then signedInfinity (x < 0)
         else if r = 0 then signedZero (x < 0)
         else Fin (if x < 0 then - r else r))"

text \<open>
  The operators of the language on numbers: \<^verbatim>\<open>+\<close>, \<^verbatim>\<open>/\<close>, \<^verbatim>\<open><=\<close> and \<^verbatim>\<open><\<close> (\<^verbatim>\<open>a > b\<close> is
  \<^verbatim>\<open>b < a\<close>), and the literal \<^verbatim>\<open>0\<close>. A comparison with \<^verbatim>\<open>NaN\<close> is false. The notation
  \<open>/\<close> belongs to a type class that also asks for a reciprocal, given here as
  \<^verbatim>\<open>1 / a\<close>; the program has no use for it.
\<close>

instantiation number :: "{zero, plus, inverse, ord}"
begin

definition zero_number :: number where
  "zero_number = Fin 0"

definition plus_number :: "number \<Rightarrow> number \<Rightarrow> number" where
  "plus_number a b =
     (if a = NaN \<or> b = NaN then NaN
      else if isInfinite a \<and> isInfinite b then (if a = b then a else NaN)
      else if isInfinite a then a
      else if isInfinite b then b
      else if isZero a \<and> isZero b then (if signBit a \<and> signBit b then NegZero else Fin 0)
      else if realValue a + realValue b = 0 then Fin 0
      else roundNearest (realValue a + realValue b))"

definition divide_number :: "number \<Rightarrow> number \<Rightarrow> number" where
  "divide_number a b =
     (if a = NaN \<or> b = NaN then NaN
      else if isInfinite a then
        (if isInfinite b then NaN else signedInfinity (signBit a \<noteq> signBit b))
      else if isInfinite b then signedZero (signBit a \<noteq> signBit b)
      else if isZero b then
        (if isZero a then NaN else signedInfinity (signBit a \<noteq> signBit b))
      else if isZero a then signedZero (signBit a \<noteq> signBit b)
      else roundNearest (realValue a / realValue b))"

definition inverse_number :: "number \<Rightarrow> number" where
  "inverse_number a = divide (Fin 1) a"

definition less_eq_number :: "number \<Rightarrow> number \<Rightarrow> bool" where
  "less_eq_number a b =
     (a \<noteq> NaN \<and> b \<noteq> NaN \<and>
      (a = NegInfinity \<or> b = Infinity \<or>
       (\<not> isInfinite a \<and> \<not> isInfinite b \<and> realValue a \<le> realValue b)))"

definition less_number :: "number \<Rightarrow> number \<Rightarrow> bool" where
  "less_number a b =
     (a \<noteq> NaN \<and> b \<noteq> NaN \<and>
      (a = NegInfinity \<and> b \<noteq> NegInfinity \<or> b = Infinity \<and> a \<noteq> Infinity \<or>
       (\<not> isInfinite a \<and> \<not> isInfinite b \<and> realValue a < realValue b)))"

instance ..

end

subsection \<open>Data model\<close>

record lineItem =
  itemDescription :: string
  itemQuantity :: number
  itemUnitPrice :: number

record ChangeOrderInput =
  projectId :: string
  contractorName :: string
  contractorEmail :: string
  workPerformedAt :: string
  scope :: string
  quantity :: number
  unitLabel :: string
  materialCost :: number
  laborCost :: number
  additionalCharges :: number
  additionalChargesReason :: string
  whyNeeded :: string
  whyNotInTurnKey :: string
  photos :: "string list"
  isMultiItem :: bool
  lineItems :: "lineItem list"

record ChecklistViolation =
  code :: string
  message :: string

subsection \<open>Checklist validator\<close>

text \<open>
  The \<^verbatim>\<open>for\<close> loop over \<^verbatim>\<open>input.lineItems.entries()\<close>; \<open>index\<close> is the position of the
  head of the remaining list.
\<close>

fun lineItemViolations :: "nat \<Rightarrow> lineItem list \<Rightarrow> ChecklistViolation list" where
  "lineItemViolations index [] = []"
| "lineItemViolations index (li # rest) =
     (if trim (itemDescription li) = [] \<or> itemQuantity li \<le> (0::number) \<or> itemUnitPrice li < (0::number)
      then [\<lparr>code = ''line_item_'' @ showNat (index + 1) @ ''_invalid'',
             message = ''Line item '' @ showNat (index + 1) @ '' needs description, quantity, and unit price.''\<rparr>]
      else [])
     @ lineItemViolations (index + 1) rest"

definition evaluateChecklist :: "ChangeOrderInput \<Rightarrow> ChecklistViolation list" where
  "evaluateChecklist input =
    (let (totalCost::number) = materialCost input + laborCost input + additionalCharges input in
      (if trim (scope input) = []
       then [\<lparr>code = ''scope_missing'', message = ''Scope of change order is required.''\<rparr>]
       else [])
    @ (if quantity input \<le> (0::number)
       then [\<lparr>code = ''quantity_missing'', message = ''Quantity/area/amount must be greater than 0.''\<rparr>]
       else [])
    @ (if materialCost input < (0::number) \<or> laborCost input < (0::number)
       then [\<lparr>code = ''pricing_invalid'',
              message = ''Labor and material pricing must be included and non-negative.''\<rparr>]
       else [])
    @ (if additionalCharges input > (0::number) \<and> trim (additionalChargesReason input) = []
       then [\<lparr>code = ''additional_charges_reason_missing'',
              message = ''Additional charges must include a clear explanation.''\<rparr>]
       else [])
    @ (if quantity input > (0::number) \<and> totalCost / quantity input \<le> (0::number)
       then [\<lparr>code = ''unit_price_unclear'',
              message = ''Price per unit must be determinable and greater than 0.''\<rparr>]
       else [])
    @ (if trim (whyNeeded input) = []
       then [\<lparr>code = ''justification_missing'', message = ''Include why this change order is needed.''\<rparr>]
       else [])
    @ (if trim (whyNotInTurnKey input) = []
       then [\<lparr>code = ''turnkey_justification_missing'',
              message = ''Include why this charge was not in turn-key pricing.''\<rparr>]
       else [])
    @ (if length (photos input) = 0
       then [\<lparr>code = ''photos_missing'', message = ''At least one supporting photo is required.''\<rparr>]
       else [])
    @ (if isMultiItem input
       then (if length (lineItems input) < (2::nat)
             then [\<lparr>code = ''line_items_missing'',
                    message = ''Multiple-item change orders require at least two line items.''\<rparr>]
             else [])
            @ lineItemViolations 0 (lineItems input)
       else []))"

subsection \<open>Lateness\<close>

text \<open>
  \<open>dateGetTime s\<close> stands for \<^verbatim>\<open>new Date(s).getTime()\<close>, \<open>None\<close> being \<^verbatim>\<open>NaN\<close>;
  \<open>now\<close> is the reading of \<^verbatim>\<open>Date.now()\<close>.
\<close>

definition isPast24Hours :: "(string \<Rightarrow> int option) \<Rightarrow> int \<Rightarrow> string \<Rightarrow> bool" where
  "isPast24Hours dateGetTime now workPerformedAtIso =
    (case dateGetTime workPerformedAtIso of
       None \<Rightarrow> True
     | Some workPerformedAtMs \<Rightarrow>
         (let elapsedMs = now - workPerformedAtMs in elapsedMs > 24 * 60 * 60 * 1000))"

subsection \<open>Stored records\<close>

datatype SubmissionStatus = DRAFT | SUBMITTED | BLOCKED

datatype TeamQueueStatus = T_NEW | T_IN_REVIEW | T_NEEDS_INFO | T_APPROVED | T_DENIED

datatype DecisionStatus = D_PENDING | D_NEEDS_INFO | D_APPROVED | D_DENIED

datatype DenialReasonCode =
    MISSING_REQUIRED_INFO
  | INSUFFICIENT_PHOTO_EVIDENCE
  | OUTSIDE_24_HOUR_WINDOW
  | DUPLICATE_REQUEST
  | PRICING_NOT_JUSTIFIED
  | IN_SCOPE_OF_TURNKEY
  | OTHER

datatype DecisionEmailStatus = E_PENDING | E_SENT | E_FAILED

datatype DecisionEmailMode = Smtp | Preview

text \<open>The string that a \<^verbatim>\<open>DenialReasonCode\<close> is at run time.\<close>

fun denialReasonCodeString :: "DenialReasonCode \<Rightarrow> string" where
  "denialReasonCodeString MISSING_REQUIRED_INFO = ''MISSING_REQUIRED_INFO''"
| "denialReasonCodeString INSUFFICIENT_PHOTO_EVIDENCE = ''INSUFFICIENT_PHOTO_EVIDENCE''"
| "denialReasonCodeString OUTSIDE_24_HOUR_WINDOW = ''OUTSIDE_24_HOUR_WINDOW''"
| "denialReasonCodeString DUPLICATE_REQUEST = ''DUPLICATE_REQUEST''"
| "denialReasonCodeString PRICING_NOT_JUSTIFIED = ''PRICING_NOT_JUSTIFIED''"
| "denialReasonCodeString IN_SCOPE_OF_TURNKEY = ''IN_SCOPE_OF_TURNKEY''"
| "denialReasonCodeString OTHER = ''OTHER''"

record StoredChangeOrder =
  orderId :: string
  createdAt :: string
  updatedAt :: string
  submittedAt :: "string option"
  status :: SubmissionStatus
  input :: ChangeOrderInput
  blockingReasons :: "string list option"
  teamStatus :: TeamQueueStatus
  reviewerNotes :: string
  decisionStatus :: DecisionStatus
  decisionAt :: "string option"
  decisionBy :: "string option"
  approvedAmount :: "real option"
  denialReasonCode :: "DenialReasonCode option"
  decisionExplanation :: "string option"
  contractorFacingMessage :: "string option"
  needsInfoChecklist :: "string list"
  isFinalized :: bool
  decisionEmailStatus :: DecisionEmailStatus
  decisionEmailSentAt :: "string option"
  decisionEmailTo :: "string option"
  decisionEmailSubject :: "string option"
  decisionEmailBody :: "string option"
  decisionEmailHtml :: "string option"
  decisionEmailError :: "string option"
  decisionEmailPreviewUrl :: "string option"
  decisionEmailMode :: "DecisionEmailMode option"

type_synonym Store = "StoredChangeOrder list"

text \<open>\<^verbatim>\<open>Array.prototype.findIndex\<close>; \<open>None\<close> is the result \<^verbatim>\<open>-1\<close>.\<close>

fun findIndex :: "('a \<Rightarrow> bool) \<Rightarrow> 'a list \<Rightarrow> nat option" where
  "findIndex P [] = None"
| "findIndex P (x # xs) = (if P x then Some 0 else map_option Suc (findIndex P xs))"

text \<open>
  \<open>normalizeRecord\<close> spreads the record and recomputes some fields. On a record of the
  declared type every \<^verbatim>\<open>??\<close> keeps its left operand (the field is never
  \<^verbatim>\<open>undefined\<close>, or the default is \<^verbatim>\<open>undefined\<close> itself), so the clock reading behind
  \<^verbatim>\<open>updatedAt\<close> is never taken.
\<close>

definition normalizeRecord :: "StoredChangeOrder \<Rightarrow> StoredChangeOrder" where
  "normalizeRecord record = record\<lparr>
     updatedAt := updatedAt record,
     teamStatus :=
       (if teamStatus record = T_DENIED \<or> teamStatus record = T_APPROVED \<or> teamStatus record = T_NEEDS_INFO
        then teamStatus record
        else if teamStatus record = T_IN_REVIEW then T_IN_REVIEW else T_NEW),
     decisionStatus := decisionStatus record,
     needsInfoChecklist := needsInfoChecklist record,
     reviewerNotes := reviewerNotes record,
     isFinalized := isFinalized record,
     decisionEmailStatus := decisionEmailStatus record,
     decisionEmailError := (case decisionEmailError record of None \<Rightarrow> None | Some e \<Rightarrow> Some e),
     decisionEmailPreviewUrl := (case decisionEmailPreviewUrl record of None \<Rightarrow> None | Some u \<Rightarrow> Some u),
     decisionEmailMode := (case decisionEmailMode record of None \<Rightarrow> None | Some m \<Rightarrow> Some m),
     decisionEmailHtml := (case decisionEmailHtml record of None \<Rightarrow> None | Some h \<Rightarrow> Some h)\<rparr>"

definition listChangeOrders :: "Store \<Rightarrow> StoredChangeOrder list" where
  "listChangeOrders store = rev (map normalizeRecord store)"

definition getChangeOrderById :: "string \<Rightarrow> Store \<Rightarrow> StoredChangeOrder option" where
  "getChangeOrderById oid store =
     (case find (\<lambda>item. orderId item = oid) store of
        None \<Rightarrow> None
      | Some record \<Rightarrow> Some (normalizeRecord record))"

text \<open>
  The identifier \<^verbatim>\<open>co_${Date.now()}_${Math.floor(Math.random() * 1000)}\<close>: \<open>nowMs\<close> is the
  clock reading and \<open>rnd\<close> the floored random draw.
\<close>

definition mintId :: "int \<Rightarrow> nat \<Rightarrow> string" where
  "mintId nowMs rnd = ''co_'' @ showInt nowMs @ ''_'' @ showNat rnd"

definition saveDraft ::
  "int \<Rightarrow> nat \<Rightarrow> string \<Rightarrow> string \<Rightarrow> ChangeOrderInput \<Rightarrow> Store \<Rightarrow> StoredChangeOrder \<times> Store" where
  "saveDraft nowMs rnd createdIso updatedIso inp store =
    (let record = \<lparr>
       orderId = mintId nowMs rnd,
       createdAt = createdIso,
       updatedAt = updatedIso,
       submittedAt = None,
       status = DRAFT,
       input = inp,
       blockingReasons = None,
       teamStatus = T_NEW,
       reviewerNotes = [],
       decisionStatus = D_PENDING,
       decisionAt = None,
       decisionBy = None,
       approvedAmount = None,
       denialReasonCode = None,
       decisionExplanation = None,
       contractorFacingMessage = None,
       needsInfoChecklist = [],
       isFinalized = False,
       decisionEmailStatus = E_PENDING,
       decisionEmailSentAt = None,
       decisionEmailTo = None,
       decisionEmailSubject = None,
       decisionEmailBody = None,
       decisionEmailHtml = None,
       decisionEmailError = None,
       decisionEmailPreviewUrl = None,
       decisionEmailMode = None\<rparr>
     in (record, store @ [record]))"

definition saveSubmission ::
  "int \<Rightarrow> nat \<Rightarrow> string \<Rightarrow> string \<Rightarrow> string \<Rightarrow> ChangeOrderInput \<Rightarrow> Store
     \<Rightarrow> StoredChangeOrder \<times> Store" where
  "saveSubmission nowMs rnd createdIso updatedIso submittedIso inp store =
    (let record = \<lparr>
       orderId = mintId nowMs rnd,
       createdAt = createdIso,
       updatedAt = updatedIso,
       submittedAt = Some submittedIso,
       status = SUBMITTED,
       input = inp,
       blockingReasons = None,
       teamStatus = T_NEW,
       reviewerNotes = [],
       decisionStatus = D_PENDING,
       decisionAt = None,
       decisionBy = None,
       approvedAmount = None,
       denialReasonCode = None,
       decisionExplanation = None,
       contractorFacingMessage = None,
       needsInfoChecklist = [],
       isFinalized = False,
       decisionEmailStatus = E_PENDING,
       decisionEmailSentAt = None,
       decisionEmailTo = None,
       decisionEmailSubject = None,
       decisionEmailBody = None,
       decisionEmailHtml = None,
       decisionEmailError = None,
       decisionEmailPreviewUrl = None,
       decisionEmailMode = None\<rparr>
     in (record, store @ [record]))"

definition saveBlocked ::
  "int \<Rightarrow> nat \<Rightarrow> string \<Rightarrow> string \<Rightarrow> ChangeOrderInput \<Rightarrow> string list \<Rightarrow> Store
     \<Rightarrow> StoredChangeOrder \<times> Store" where
  "saveBlocked nowMs rnd createdIso updatedIso inp reasons store =
    (let record = \<lparr>
       orderId = mintId nowMs rnd,
       createdAt = createdIso,
       updatedAt = updatedIso,
       submittedAt = None,
       status = BLOCKED,
       input = inp,
       blockingReasons = Some reasons,
       teamStatus = T_NEW,
       reviewerNotes = [],
       decisionStatus = D_PENDING,
       decisionAt = None,
       decisionBy = None,
       approvedAmount = None,
       denialReasonCode = None,
       decisionExplanation = None,
       contractorFacingMessage = None,
       needsInfoChecklist = [],
       isFinalized = False,
       decisionEmailStatus = E_PENDING,
       decisionEmailSentAt = None,
       decisionEmailTo = None,
       decisionEmailSubject = None,
       decisionEmailBody = None,
       decisionEmailHtml = None,
       decisionEmailError = None,
       decisionEmailPreviewUrl = None,
       decisionEmailMode = None\<rparr>
     in (record, store @ [record]))"

record TeamQueueUpdates =
  updTeamStatus :: "TeamQueueStatus option"
  updReviewerNotes :: "string option"

definition updateTeamQueueItem ::
  "string \<Rightarrow> string \<Rightarrow> TeamQueueUpdates \<Rightarrow> Store \<Rightarrow> StoredChangeOrder option \<times> Store" where
  "updateTeamQueueItem updatedIso oid updates store =
    (case findIndex (\<lambda>item. orderId item = oid) store of
       None \<Rightarrow> (None, store)
     | Some index \<Rightarrow>
         (let current = store ! index in
          if isFinalized current then (Some current, store)
          else
            (let next = current\<lparr>
               teamStatus := (case updTeamStatus updates of None \<Rightarrow> teamStatus current | Some t \<Rightarrow> t),
               reviewerNotes := (case updReviewerNotes updates of None \<Rightarrow> reviewerNotes current | Some n \<Rightarrow> n),
               updatedAt := updatedIso\<rparr>
             in (Some next, store[index := next]))))"

text \<open>
  The tagged union \<^verbatim>\<open>DecisionInput\<close>. The arguments are, in the order of the type:
  \<^verbatim>\<open>decidedBy\<close>, then \<^verbatim>\<open>approvedAmount\<close> or \<^verbatim>\<open>denialReasonCode\<close> where the action has one,
  \<^verbatim>\<open>decisionExplanation\<close>, \<^verbatim>\<open>contractorFacingMessage\<close> and, for \<^verbatim>\<open>NEEDS_INFO\<close>,
  \<^verbatim>\<open>needsInfoChecklist\<close>.
\<close>

datatype DecisionInput =
    NEEDS_INFO string string "string option" "string list"
  | APPROVE string real string "string option"
  | DENY string DenialReasonCode string "string option"

fun decidedBy :: "DecisionInput \<Rightarrow> string" where
  "decidedBy (NEEDS_INFO by ex msg items) = by"
| "decidedBy (APPROVE by amount ex msg) = by"
| "decidedBy (DENY by reason ex msg) = by"

fun decisionExplanationOf :: "DecisionInput \<Rightarrow> string" where
  "decisionExplanationOf (NEEDS_INFO by ex msg items) = ex"
| "decisionExplanationOf (APPROVE by amount ex msg) = ex"
| "decisionExplanationOf (DENY by reason ex msg) = ex"

fun contractorFacingMessageOf :: "DecisionInput \<Rightarrow> string option" where
  "contractorFacingMessageOf (NEEDS_INFO by ex msg items) = msg"
| "contractorFacingMessageOf (APPROVE by amount ex msg) = msg"
| "contractorFacingMessageOf (DENY by reason ex msg) = msg"

subsection \<open>Decision e-mail content\<close>

definition escapeHtml :: "string \<Rightarrow> string" where
  "escapeHtml v =
     replaceAll (CHR 0x27) ''&#39;''
       (replaceAll (CHR 0x22) ''&quot;''
         (replaceAll CHR ''>'' ''&gt;''
           (replaceAll CHR ''<'' ''&lt;''
             (replaceAll CHR ''&'' ''&amp;'' v))))"

definition baseHeader :: string where
  "baseHeader =
     ''\<newline>'' @
     ''    <div style=\"padding:16px 20px;background:#ffffff;border-bottom:1px solid #dbeafe;\">\<newline>'' @
     ''      <img src=\"cid:remi-logo@change-order\" alt=\"Remi\" style=\"height:24px;display:block;\" />\<newline>'' @
     ''    </div>\<newline>'' @
     ''  ''"

definition baseFooter :: "string \<Rightarrow> string" where
  "baseFooter projectLabel =
     ''\<newline>'' @
     ''    <div style=\"padding:14px 20px;border-top:1px solid #dbeafe;background:#f8fbff;color:#64748b;font-size:12px;line-height:1.5;\">\<newline>'' @
     ''      Remi Change Orders Team<br/>\<newline>'' @
     ''      This message was sent for project '' @
     escapeHtml projectLabel @
     ''.\<newline>'' @
     ''    </div>\<newline>'' @
     ''  ''"

text \<open>
  \<open>wrapHtml\<close> is a closure over \<^verbatim>\<open>baseHeader\<close> and \<^verbatim>\<open>baseFooter\<close>; here the footer, which
  depends on the record, is an argument.
\<close>

definition wrapHtml :: "string \<Rightarrow> string \<Rightarrow> string" where
  "wrapHtml footer inner =
     ''\<newline>'' @
     ''    <div style=\"background:#f2f7ff;padding:20px;font-family:Inter,Segoe UI,Arial,sans-serif;\">\<newline>'' @
     ''      <div style=\"max-width:640px;margin:0 auto;border:1px solid #dbeafe;border-radius:12px;overflow:hidden;background:#ffffff;\">\<newline>'' @
     ''        '' @
     baseHeader @
     ''\<newline>'' @
     ''        <div style=\"padding:20px;\">\<newline>'' @
     ''          '' @
     inner @
     ''\<newline>'' @
     ''        </div>\<newline>'' @
     ''        '' @
     footer @
     ''\<newline>'' @
     ''      </div>\<newline>'' @
     ''    </div>\<newline>'' @
     ''  ''"

text \<open>
  The conditional paragraph
  \<^verbatim>\<open>messageBlock ? `<p ...><strong>Message from Remi:</strong><br/>${messageBlock}</p>` : ""\<close>,
  which the three branches spell out identically.
\<close>

definition messageParagraph :: "string \<Rightarrow> string" where
  "messageParagraph messageBlock =
     (if messageBlock \<noteq> [] then
     ''<p style=\"margin:0;color:#0f172a;font-size:14px;white-space:pre-wrap;\"><strong>Message from Remi:</strong><br/>'' @
     messageBlock @
     ''</p>''
      else [])"

text \<open>The argument of \<open>wrapHtml\<close> in each of the three branches.\<close>

definition approvedInner :: "string \<Rightarrow> string \<Rightarrow> string \<Rightarrow> string \<Rightarrow> string \<Rightarrow> string" where
  "approvedInner contractorName' projectLabel accentColor approvedAmountText messageBlock =
     ''\<newline>'' @
     ''      <p style=\"margin:0 0 12px;color:#0f172a;font-size:16px;\">Hello '' @
     escapeHtml contractorName' @
     '',</p>\<newline>'' @
     ''      <p style=\"margin:0 0 14px;color:#0f172a;font-size:15px;\">\<newline>'' @
     ''        Your change order has been <strong style=\"color:'' @
     accentColor @
     '';\">approved</strong>.\<newline>'' @
     ''      </p>\<newline>'' @
     ''      <div style=\"border:1px solid #dcfce7;background:#f0fdf4;border-radius:8px;padding:12px 14px;margin:0 0 14px;\">\<newline>'' @
     ''        <p style=\"margin:0;color:#14532d;font-size:14px;\"><strong>Project:</strong> '' @
     escapeHtml projectLabel @
     ''</p>\<newline>'' @
     ''        <p style=\"margin:8px 0 0;color:#14532d;font-size:14px;\"><strong>Approved amount:</strong> $'' @
     approvedAmountText @
     ''</p>\<newline>'' @
     ''      </div>\<newline>'' @
     ''      '' @
     messageParagraph messageBlock @
     ''\<newline>'' @
     ''    ''"

definition deniedInner :: "string \<Rightarrow> string \<Rightarrow> string \<Rightarrow> string \<Rightarrow> string \<Rightarrow> string" where
  "deniedInner contractorName' projectLabel accentColor denialReasonText messageBlock =
     ''\<newline>'' @
     ''      <p style=\"margin:0 0 12px;color:#0f172a;font-size:16px;\">Hello '' @
     escapeHtml contractorName' @
     '',</p>\<newline>'' @
     ''      <p style=\"margin:0 0 14px;color:#0f172a;font-size:15px;\">\<newline>'' @
     ''        Your change order has been <strong style=\"color:'' @
     accentColor @
     '';\">denied</strong>.\<newline>'' @
     ''      </p>\<newline>'' @
     ''      <div style=\"border:1px solid #fecdd3;background:#fff1f2;border-radius:8px;padding:12px 14px;margin:0 0 14px;\">\<newline>'' @
     ''        <p style=\"margin:0;color:#9f1239;font-size:14px;\"><strong>Project:</strong> '' @
     escapeHtml projectLabel @
     ''</p>\<newline>'' @
     ''        <p style=\"margin:8px 0 0;color:#9f1239;font-size:14px;\"><strong>Reason code:</strong> '' @
     escapeHtml denialReasonText @
     ''</p>\<newline>'' @
     ''      </div>\<newline>'' @
     ''      '' @
     messageParagraph messageBlock @
     ''\<newline>'' @
     ''    ''"

definition needsInfoInner :: "string \<Rightarrow> string \<Rightarrow> string \<Rightarrow> string \<Rightarrow> string \<Rightarrow> string" where
  "needsInfoInner contractorName' projectLabel accentColor listHtml messageBlock =
     ''\<newline>'' @
     ''    <p style=\"margin:0 0 12px;color:#0f172a;font-size:16px;\">Hello '' @
     escapeHtml contractorName' @
     '',</p>\<newline>'' @
     ''    <p style=\"margin:0 0 14px;color:#0f172a;font-size:15px;\">\<newline>'' @
     ''      We need <strong style=\"color:'' @
     accentColor @
     '';\">more information</strong> to review your change order.\<newline>'' @
     ''    </p>\<newline>'' @
     ''    <div style=\"border:1px solid #bfdbfe;background:#eff6ff;border-radius:8px;padding:12px 14px;margin:0 0 14px;\">\<newline>'' @
     ''      <p style=\"margin:0;color:#0f4f8b;font-size:14px;\"><strong>Project:</strong> '' @
     escapeHtml projectLabel @
     ''</p>\<newline>'' @
     ''      <p style=\"margin:8px 0 0;color:#0f4f8b;font-size:14px;\"><strong>Requested items:</strong></p>\<newline>'' @
     ''      '' @
     listHtml @
     ''\<newline>'' @
     ''    </div>\<newline>'' @
     ''    '' @
     messageParagraph messageBlock @
     ''\<newline>'' @
     ''  ''"

definition listItemHtml :: "string \<Rightarrow> string" where
  "listItemHtml line =
     ''<li style=\"margin:0 0 6px;\">'' @
     escapeHtml line @
     ''</li>''"

definition listHtmlOf :: "string list \<Rightarrow> string" where
  "listHtmlOf items =
     (if length items > 0 then
     ''<ul style=\"margin:8px 0 0 18px;padding:0;color:#0f4f8b;font-size:14px;\">'' @
        join [] (map listItemHtml items) @ ''</ul>''
      else
     ''<p style=\"margin:8px 0 0;color:#0f4f8b;font-size:14px;\">Additional details requested.</p>'')"

text \<open>
  The optional tail \<^verbatim>\<open>record.contractorFacingMessage ? `\n\nMessage from Remi:\n${...}` : ""\<close>
  of each plain-text body.
\<close>

definition messageTail :: "string option \<Rightarrow> string" where
  "messageTail m =
     (case m of
        None \<Rightarrow> []
      | Some msg \<Rightarrow> if msg \<noteq> [] then ''\<newline>\<newline>Message from Remi:\<newline>'' @ msg else [])"

record EmailContent =
  subject :: string
  body :: string
  html :: string

text \<open>
  \<open>toFixed2 x\<close> stands for \<^verbatim>\<open>x.toFixed(2)\<close>. The constant \<^verbatim>\<open>decisionLabel\<close> of the source
  is computed and never read, so it has no counterpart here.
\<close>

definition buildDecisionEmailContent :: "(real \<Rightarrow> string) \<Rightarrow> StoredChangeOrder \<Rightarrow> EmailContent" where
  "buildDecisionEmailContent toFixed2 record =
    (let projectLabel = orElse (projectId (input record)) ''your project'';
         contractorName' = orElse (contractorName (input record)) ''Contractor'';
         accentColor =
           (if decisionStatus record = D_DENIED then ''#be123c''
            else if decisionStatus record = D_APPROVED then ''#166534'' else ''#0f4f8b'');
         messageBlock =
           escapeHtml (case contractorFacingMessage record of None \<Rightarrow> [] | Some m \<Rightarrow> orElse m []);
         approvedAmountText =
           (case approvedAmount record of None \<Rightarrow> ''0.00'' | Some a \<Rightarrow> toFixed2 a);
         denialReasonText =
           (case denialReasonCode record of None \<Rightarrow> ''N/A'' | Some c \<Rightarrow> denialReasonCodeString c)
     in
      if decisionStatus record = D_APPROVED then
        \<lparr>subject = ''Change order approved - '' @ projectLabel,
         body =
           ''Hello '' @ contractorName' @ '','' @
           ''\<newline>\<newline>Your change order has been approved.'' @
           ''\<newline>Project: '' @ projectLabel @
           ''\<newline>Approved amount: $'' @ approvedAmountText @
           messageTail (contractorFacingMessage record) @
           ''\<newline>\<newline>Thank you,\<newline>Remi Change Orders Team'',
         html =
           wrapHtml (baseFooter projectLabel)
             (approvedInner contractorName' projectLabel accentColor approvedAmountText messageBlock)\<rparr>
      else if decisionStatus record = D_DENIED then
        \<lparr>subject = ''Change order denied - '' @ projectLabel,
         body =
           ''Hello '' @ contractorName' @ '','' @
           ''\<newline>\<newline>Your change order has been denied.'' @
           ''\<newline>Project: '' @ projectLabel @
           ''\<newline>Reason: '' @ denialReasonText @
           messageTail (contractorFacingMessage record) @
           ''\<newline>\<newline>Thank you,\<newline>Remi Change Orders Team'',
         html =
           wrapHtml (baseFooter projectLabel)
             (deniedInner contractorName' projectLabel accentColor denialReasonText messageBlock)\<rparr>
      else
        (let requestedItems =
               (if length (needsInfoChecklist record) > 0
                then join ''\<newline>'' (map (\<lambda>line. ''- '' @ line) (needsInfoChecklist record))
                else ''- Additional details requested.'');
             listHtml = listHtmlOf (needsInfoChecklist record)
         in
          \<lparr>subject = ''More information needed - '' @ projectLabel,
           body =
             ''Hello '' @ contractorName' @ '','' @
             ''\<newline>\<newline>We need more information to review your change order.'' @
             ''\<newline>Project: '' @ projectLabel @
             ''\<newline>\<newline>Requested items:\<newline>'' @ requestedItems @
             messageTail (contractorFacingMessage record) @
             ''\<newline>\<newline>Thank you,\<newline>Remi Change Orders Team'',
           html =
             wrapHtml (baseFooter projectLabel)
               (needsInfoInner contractorName' projectLabel accentColor listHtml messageBlock)\<rparr>))"

definition prepareDecisionEmail :: "(real \<Rightarrow> string) \<Rightarrow> StoredChangeOrder \<Rightarrow> StoredChangeOrder" where
  "prepareDecisionEmail toFixed2 record =
    (let to = trim (contractorEmail (input record));
         content = buildDecisionEmailContent toFixed2 record
     in record\<lparr>
          decisionEmailStatus := E_PENDING,
          decisionEmailSentAt := None,
          decisionEmailTo := Some to,
          decisionEmailSubject := Some (subject content),
          decisionEmailBody := Some (body content),
          decisionEmailHtml := Some (html content),
          decisionEmailError := None,
          decisionEmailPreviewUrl := None\<rparr>)"

subsection \<open>Decision application\<close>

definition applyTeamDecision ::
  "(real \<Rightarrow> string) \<Rightarrow> string \<Rightarrow> string \<Rightarrow> DecisionInput \<Rightarrow> Store
     \<Rightarrow> StoredChangeOrder option \<times> Store" where
  "applyTeamDecision toFixed2 now oid decision store =
    (case findIndex (\<lambda>item. orderId item = oid) store of
       None \<Rightarrow> (None, store)
     | Some index \<Rightarrow>
         (let current = store ! index in
          if isFinalized current then (Some current, store)
          else
            (let next0 = current\<lparr>
                   teamStatus := T_IN_REVIEW,
                   updatedAt := now,
                   decisionAt := Some now,
                   decisionBy := Some (decidedBy decision),
                   decisionExplanation := Some (decisionExplanationOf decision),
                   contractorFacingMessage :=
                     Some (case contractorFacingMessageOf decision of None \<Rightarrow> [] | Some m \<Rightarrow> m)\<rparr>;
                 next =
                   (case decision of
                      NEEDS_INFO by ex msg items \<Rightarrow>
                        prepareDecisionEmail toFixed2 (next0\<lparr>
                          teamStatus := T_NEEDS_INFO,
                          decisionStatus := D_NEEDS_INFO,
                          needsInfoChecklist := items,
                          approvedAmount := None,
                          denialReasonCode := None,
                          isFinalized := False\<rparr>)
                    | APPROVE by amount ex msg \<Rightarrow>
                        prepareDecisionEmail toFixed2 (next0\<lparr>
                          teamStatus := T_APPROVED,
                          decisionStatus := D_APPROVED,
                          approvedAmount := Some amount,
                          denialReasonCode := None,
                          needsInfoChecklist := [],
                          isFinalized := True\<rparr>)
                    | DENY by reason ex msg \<Rightarrow>
                        prepareDecisionEmail toFixed2 (next0\<lparr>
                          teamStatus := T_DENIED,
                          decisionStatus := D_DENIED,
                          denialReasonCode := Some reason,
                          approvedAmount := None,
                          needsInfoChecklist := [],
                          isFinalized := True\<rparr>))
             in (Some next, store[index := next]))))"

subsection \<open>Delivery reconciliation\<close>

record Delivery =
  deliveryStatus :: DecisionEmailStatus
  deliveryError :: "string option"
  deliveryPreviewUrl :: "string option"
  deliverySentAt :: "string option"
  deliveryMode :: "DecisionEmailMode option"

text \<open>
  \<open>sentNow\<close> is the clock reading behind \<^verbatim>\<open>delivery.sentAt ?? new Date().toISOString()\<close>,
  \<open>updatedNow\<close> the one behind \<^verbatim>\<open>updatedAt\<close>.
\<close>

definition updateDecisionEmailDelivery ::
  "string \<Rightarrow> string \<Rightarrow> string \<Rightarrow> Delivery \<Rightarrow> Store \<Rightarrow> StoredChangeOrder option \<times> Store" where
  "updateDecisionEmailDelivery sentNow updatedNow oid delivery store =
    (case findIndex (\<lambda>item. orderId item = oid) store of
       None \<Rightarrow> (None, store)
     | Some index \<Rightarrow>
         (let current = normalizeRecord (store ! index);
              next = current\<lparr>
                decisionEmailStatus := deliveryStatus delivery,
                decisionEmailSentAt :=
                  Some (case deliverySentAt delivery of None \<Rightarrow> sentNow | Some t \<Rightarrow> t),
                decisionEmailError := deliveryError delivery,
                decisionEmailPreviewUrl := deliveryPreviewUrl delivery,
                decisionEmailMode := deliveryMode delivery,
                updatedAt := updatedNow\<rparr>
          in (Some next, store[index := next])))"

text \<open>\<open>strictEmailRegexTest s\<close> stands for \<^verbatim>\<open>strictEmailRegex.test(s)\<close>.\<close>

definition isValidEmail :: "(string \<Rightarrow> bool) \<Rightarrow> string \<Rightarrow> bool" where
  "isValidEmail strictEmailRegexTest v = strictEmailRegexTest (trim v)"

definition hasValidContractorEmail :: "(string \<Rightarrow> bool) \<Rightarrow> StoredChangeOrder \<Rightarrow> bool" where
  "hasValidContractorEmail strictEmailRegexTest record =
     isValidEmail strictEmailRegexTest (contractorEmail (input record))"

subsection \<open>Route handlers\<close>

text \<open>
  \<^verbatim>\<open>POST /api/change-orders/submit\<close>. \<open>parsed\<close> is the outcome of
  \<^verbatim>\<open>changeOrderInputSchema.safeParse(payload)\<close>, \<open>None\<close> when it fails. \<open>lateNowMs\<close> is the
  clock reading inside \<open>isPast24Hours\<close>; the remaining readings are those of the save.
  The repository holds two more copies of this handler; they differ in the notification
  mail that they send after the save, not in what they store or answer about the record.
\<close>

datatype SubmitResponse =
    SubmitInvalid422
  | SubmitBlocked422 StoredChangeOrder "string list"
  | SubmitOk200 StoredChangeOrder

definition submitPOST ::
  "(string \<Rightarrow> int option) \<Rightarrow> int \<Rightarrow> int \<Rightarrow> nat \<Rightarrow> string \<Rightarrow> string \<Rightarrow> string
     \<Rightarrow> ChangeOrderInput option \<Rightarrow> Store \<Rightarrow> SubmitResponse \<times> Store" where
  "submitPOST dateGetTime lateNowMs nowMs rnd createdIso updatedIso submittedIso parsed store =
    (case parsed of
       None \<Rightarrow> (SubmitInvalid422, store)
     | Some data \<Rightarrow>
         (let checklistViolations = map message (evaluateChecklist data);
              isLate = isPast24Hours dateGetTime lateNowMs (workPerformedAt data);
              reasons =
                checklistViolations @
                (if isLate
                 then [''This change order was submitted after 24 hours and cannot be finalized.'']
                 else [])
          in
            if length reasons > 0 then
              (case saveBlocked nowMs rnd createdIso updatedIso data reasons store of
                 (blocked, store') \<Rightarrow> (SubmitBlocked422 blocked reasons, store'))
            else
              (case saveSubmission nowMs rnd createdIso updatedIso submittedIso data store of
                 (submitted, store') \<Rightarrow> (SubmitOk200 submitted, store'))))"

text \<open>
  \<^verbatim>\<open>PATCH /api/change-orders/[id]\<close>. \<open>parsed\<close> is the outcome of
  \<^verbatim>\<open>updateSchema.safeParse(payload)\<close>; the schema admits each of the five team statuses.
\<close>

datatype PatchResponse =
    PatchInvalid400
  | PatchNotFound404
  | PatchOk200 StoredChangeOrder

definition PATCH :: "string \<Rightarrow> string \<Rightarrow> TeamQueueUpdates option \<Rightarrow> Store \<Rightarrow> PatchResponse \<times> Store" where
  "PATCH updatedIso oid parsed store =
    (case parsed of
       None \<Rightarrow> (PatchInvalid400, store)
     | Some updates \<Rightarrow>
         (case updateTeamQueueItem updatedIso oid updates store of
            (None, store') \<Rightarrow> (PatchNotFound404, store')
          | (Some updated, store') \<Rightarrow> (PatchOk200 updated, store')))"

text \<open>
  \<^verbatim>\<open>POST /api/change-orders/[id]/decision\<close>. The parsed payload of \<^verbatim>\<open>decisionSchema\<close>, whose
  \<^verbatim>\<open>contractorFacingMessage\<close>, \<^verbatim>\<open>acknowledgeLateSubmission\<close> and \<^verbatim>\<open>isLate\<close> have defaults and so
  are always present. Arguments in the order of the schema.
\<close>

datatype DecisionPayload =
    PayloadNEEDS_INFO string string string "string list"
  | PayloadAPPROVE string real string string bool bool
  | PayloadDENY string DenialReasonCode string string

record EmailMessage =
  mailTo :: string
  mailSubject :: string
  mailText :: string
  mailHtml :: "string option"

record EmailResult =
  sent :: bool
  resultMode :: "DecisionEmailMode option"
  resultPreviewUrl :: "string option"
  resultError :: "string option"

datatype DecisionResponse =
    DecisionNotFound404
  | DecisionNotSubmitted422
  | DecisionInvalid400
  | DecisionLateUnacknowledged422
  | DecisionOk200 StoredChangeOrder DecisionEmailStatus "string option"

text \<open>The call of \<open>applyTeamDecision\<close> that the route makes for a parsed payload.\<close>

fun decisionOfPayload :: "DecisionPayload \<Rightarrow> DecisionInput" where
  "decisionOfPayload (PayloadNEEDS_INFO by ex msg items) = NEEDS_INFO by ex (Some msg) items"
| "decisionOfPayload (PayloadAPPROVE by amount ex msg ack late) = APPROVE by amount ex (Some msg)"
| "decisionOfPayload (PayloadDENY by reason ex msg) = DENY by reason ex (Some msg)"

fun lateUnacknowledged :: "DecisionPayload \<Rightarrow> bool" where
  "lateUnacknowledged (PayloadAPPROVE by amount ex msg ack late) = (late \<and> \<not> ack)"
| "lateUnacknowledged p = False"

text \<open>
  \<open>sendDecisionEmail\<close> is the mail transport; \<open>decisionNow\<close> is the clock reading of
  \<open>applyTeamDecision\<close>, \<open>sentNow\<close> and \<open>updatedNow\<close> those of \<open>updateDecisionEmailDelivery\<close>.
\<close>

definition decisionPOST ::
  "(string \<Rightarrow> bool) \<Rightarrow> (real \<Rightarrow> string) \<Rightarrow> (EmailMessage \<Rightarrow> EmailResult)
     \<Rightarrow> string \<Rightarrow> string \<Rightarrow> string
     \<Rightarrow> string \<Rightarrow> DecisionPayload option \<Rightarrow> Store \<Rightarrow> DecisionResponse \<times> Store" where
  "decisionPOST strictEmailRegexTest toFixed2 sendDecisionEmail decisionNow sentNow updatedNow
      oid parsed store =
    (case getChangeOrderById oid store of
       None \<Rightarrow> (DecisionNotFound404, store)
     | Some existing \<Rightarrow>
         if status existing \<noteq> SUBMITTED then (DecisionNotSubmitted422, store)
         else
           (case parsed of
              None \<Rightarrow> (DecisionInvalid400, store)
            | Some payload \<Rightarrow>
                if lateUnacknowledged payload then (DecisionLateUnacknowledged422, store)
                else
                  (case applyTeamDecision toFixed2 decisionNow oid (decisionOfPayload payload) store of
                     (None, store1) \<Rightarrow> (DecisionNotFound404, store1)
                   | (Some updated, store1) \<Rightarrow>
                       if \<not> hasValidContractorEmail strictEmailRegexTest updated then
                         (case updateDecisionEmailDelivery sentNow updatedNow oid
                                 \<lparr>deliveryStatus = E_FAILED,
                                  deliveryError = Some ''Invalid contractor email address.'',
                                  deliveryPreviewUrl = None,
                                  deliverySentAt = None,
                                  deliveryMode = None\<rparr> store1 of
                            (failed, store2) \<Rightarrow>
                              (DecisionOk200 (case failed of None \<Rightarrow> updated | Some f \<Rightarrow> f)
                                 E_FAILED None, store2))
                       else
                         (let emailResult = sendDecisionEmail
                                \<lparr>mailTo = contractorEmail (input updated),
                                 mailSubject =
                                   (case decisionEmailSubject updated of
                                      None \<Rightarrow> ''Change order decision'' | Some s \<Rightarrow> s),
                                 mailText =
                                   (case decisionEmailBody updated of
                                      None \<Rightarrow> ''A decision has been made on your change order.''
                                    | Some b \<Rightarrow> b),
                                 mailHtml = decisionEmailHtml updated\<rparr>
                          in
                            (case updateDecisionEmailDelivery sentNow updatedNow oid
                                    \<lparr>deliveryStatus = (if sent emailResult then E_SENT else E_FAILED),
                                     deliveryError = resultError emailResult,
                                     deliveryPreviewUrl = resultPreviewUrl emailResult,
                                     deliverySentAt = None,
                                     deliveryMode = resultMode emailResult\<rparr> store1 of
                               (withDelivery, store2) \<Rightarrow>
                                 (DecisionOk200
                                    (case withDelivery of None \<Rightarrow> updated | Some w \<Rightarrow> w)
                                    (if sent emailResult then E_SENT else E_FAILED)
                                    (resultPreviewUrl emailResult), store2))))))"

subsection \<open>Reachable stores\<close>

text \<open>
  The stores that the six mutating operations build from the empty array, under any clock
  readings, random draws and arguments.
\<close>

inductive reachable :: "(real \<Rightarrow> string) \<Rightarrow> Store \<Rightarrow> bool" for toFixed2 :: "real \<Rightarrow> string" where
  reachable_empty: "reachable toFixed2 []"
| reachable_saveDraft:
    "reachable toFixed2 s \<Longrightarrow> reachable toFixed2 (snd (saveDraft nowMs rnd c u inp s))"
| reachable_saveSubmission:
    "reachable toFixed2 s \<Longrightarrow> reachable toFixed2 (snd (saveSubmission nowMs rnd c u sub inp s))"
| reachable_saveBlocked:
    "reachable toFixed2 s \<Longrightarrow> reachable toFixed2 (snd (saveBlocked nowMs rnd c u inp reasons s))"
| reachable_updateTeamQueueItem:
    "reachable toFixed2 s \<Longrightarrow> reachable toFixed2 (snd (updateTeamQueueItem u oid updates s))"
| reachable_applyTeamDecision:
    "reachable toFixed2 s \<Longrightarrow> reachable toFixed2 (snd (applyTeamDecision toFixed2 now oid decision s))"
| reachable_updateDecisionEmailDelivery:
    "reachable toFixed2 s \<Longrightarrow> reachable toFixed2 (snd (updateDecisionEmailDelivery t u oid delivery s))"

section \<open>Vocabulary of the properties\<close>

text \<open>
  The definitions of this section are not code of the repository: they name what the
  statements below say about it.
\<close>

subsection \<open>The unit-price rule in exact arithmetic\<close>

text \<open>
  The rule as the specification words it, read on the reals that finite numbers denote:
  \<open>quantity > 0\<close> and \<open>(materialCost + laborCost + additionalCharges) / quantity \<le> 0\<close>.
\<close>

definition exactUnitPriceRule :: "ChangeOrderInput \<Rightarrow> bool" where
  "exactUnitPriceRule inp =
     (realValue (quantity inp) > 0 \<and>
      (realValue (materialCost inp) + realValue (laborCost inp) + realValue (additionalCharges inp))
        / realValue (quantity inp) \<le> 0)"

subsection \<open>The finalization invariant\<close>

text \<open>The data-model sentence: \<open>isFinalized\<close> exactly when the team status is a final one.\<close>

definition finalizedIffDecided :: "StoredChangeOrder \<Rightarrow> bool" where
  "finalizedIffDecided r = (isFinalized r = (teamStatus r = T_APPROVED \<or> teamStatus r = T_DENIED))"

subsection \<open>The combined reason list\<close>

text \<open>
  The list that the submission endpoint is specified by: the checklist messages in
  evaluation order, then the lateness message when the work is more than 24 hours old.
\<close>

definition combinedReasons :: "(string \<Rightarrow> int option) \<Rightarrow> int \<Rightarrow> ChangeOrderInput \<Rightarrow> string list" where
  "combinedReasons dateGetTime lateNowMs data =
     map message (evaluateChecklist data) @
     (if isPast24Hours dateGetTime lateNowMs (workPerformedAt data)
      then [''This change order was submitted after 24 hours and cannot be finalized.'']
      else [])"

subsection \<open>Outcome of a decision payload\<close>

text \<open>The decision status that each action of a payload stands for.\<close>

fun payloadStatus :: "DecisionPayload \<Rightarrow> DecisionStatus" where
  "payloadStatus (PayloadNEEDS_INFO by ex msg items) = D_NEEDS_INFO"
| "payloadStatus (PayloadAPPROVE by amount ex msg ack late) = D_APPROVED"
| "payloadStatus (PayloadDENY by reason ex msg) = D_DENIED"

text \<open>Two versions of a record that differ in nothing a decision writes.\<close>

definition sameDecision :: "StoredChangeOrder \<Rightarrow> StoredChangeOrder \<Rightarrow> bool" where
  "sameDecision a b =
     (orderId a = orderId b \<and> status a = status b \<and> input a = input b
      \<and> teamStatus a = teamStatus b \<and> decisionStatus a = decisionStatus b
      \<and> isFinalized a = isFinalized b
      \<and> decisionAt a = decisionAt b \<and> decisionBy a = decisionBy b
      \<and> approvedAmount a = approvedAmount b \<and> denialReasonCode a = denialReasonCode b
      \<and> decisionExplanation a = decisionExplanation b
      \<and> contractorFacingMessage a = contractorFacingMessage b
      \<and> needsInfoChecklist a = needsInfoChecklist b)"

subsection \<open>Markup characters\<close>

text \<open>
  The four characters that open or close a tag or an attribute value, and which
  \<open>escapeHtml\<close> is there to remove; and whether a record carries a contractor-facing
  message, as \<^verbatim>\<open>record.contractorFacingMessage ? ... : ...\<close> tests it.
\<close>

definition isMarkup :: "char \<Rightarrow> bool" where
  "isMarkup c = (c = CHR ''<'' \<or> c = CHR ''>'' \<or> c = CHR 0x22 \<or> c = CHR 0x27)"

definition hasMessage :: "StoredChangeOrder \<Rightarrow> bool" where
  "hasMessage r = (case contractorFacingMessage r of None \<Rightarrow> False | Some m \<Rightarrow> m \<noteq> [])"

text \<open>The entity that stands for one character in escaped text.\<close>

definition escapeChar :: "char \<Rightarrow> string" where
  "escapeChar c =
     (if c = CHR ''&'' then ''&amp;''
      else if c = CHR ''<'' then ''&lt;''
      else if c = CHR ''>'' then ''&gt;''
      else if c = CHR 0x22 then ''&quot;''
      else if c = CHR 0x27 then ''&#39;''
      else [c])"

section \<open>Example data\<close>

text \<open>A complete input and the clock and transport stand-ins of the concrete instances below.\<close>

definition exampleInput :: ChangeOrderInput where
  "exampleInput = \<lparr>
     projectId = ''POC-DEMO-001'',
     contractorName = ''Dana <Roofing>'',
     contractorEmail = ''dana@example.com'',
     workPerformedAt = ''2024-03-01T00:00:00.000Z'',
     scope = ''Replace flashing'',
     quantity = Fin 10,
     unitLabel = ''sq ft'',
     materialCost = Fin 100,
     laborCost = Fin 50,
     additionalCharges = Fin 0,
     additionalChargesReason = [],
     whyNeeded = ''Roof leak'',
     whyNotInTurnKey = ''Hidden damage'',
     photos = [''https://example.com/p.jpg''],
     isMultiItem = False,
     lineItems = []\<rparr>"

definition exampleDateGetTime :: "string \<Rightarrow> int option" where
  "exampleDateGetTime s = (if s = ''2024-03-01T00:00:00.000Z'' then Some 1709251200000 else None)"

definition exampleToFixed2 :: "real \<Rightarrow> string" where
  "exampleToFixed2 x = (if x = 120 then ''120.00'' else ''0.00'')"

text \<open>The example input with the smallest positive double as its only cost, for four units.\<close>

definition underflowInput :: ChangeOrderInput where
  "underflowInput = exampleInput\<lparr>
     quantity := Fin 4,
     materialCost := Fin minSubnormal,
     laborCost := Fin 0,
     additionalCharges := Fin 0\<rparr>"

text \<open>The store after one submission, and after its approval.\<close>

definition submittedStore :: Store where
  "submittedStore = snd (saveSubmission 5 7 ''t0'' ''t0'' ''t0'' exampleInput [])"

definition approvedStore :: Store where
  "approvedStore =
     snd (applyTeamDecision exampleToFixed2 ''t1'' ''co_5_7''
            (APPROVE ''Sam'' 120 ''Checked on site'' (Some ''Approved as quoted'')) submittedStore)"

text \<open>The store after one submission whose team status a queue update then sets to approved.\<close>

definition patchedStore :: Store where
  "patchedStore =
     snd (updateTeamQueueItem ''t1'' ''co_5_7''
            \<lparr>updTeamStatus = Some T_APPROVED, updReviewerNotes = None\<rparr> submittedStore)"

text \<open>Two delivery reports: a preview delivery and a failure that carries an error only.\<close>

definition previewDelivery :: Delivery where
  "previewDelivery = \<lparr>
     deliveryStatus = E_SENT,
     deliveryError = None,
     deliveryPreviewUrl = Some ''https://mail.example.com/preview/1'',
     deliverySentAt = Some ''t3'',
     deliveryMode = Some Preview\<rparr>"

definition failedDelivery :: Delivery where
  "failedDelivery = \<lparr>
     deliveryStatus = E_FAILED,
     deliveryError = Some ''Invalid contractor email address.'',
     deliveryPreviewUrl = None,
     deliverySentAt = None,
     deliveryMode = None\<rparr>"

text \<open>
  The store after a request for more information on the submission, and after the report
  that its notification went out by SMTP.
\<close>

definition needsInfoStore :: Store where
  "needsInfoStore =
     snd (applyTeamDecision exampleToFixed2 ''t1'' ''co_5_7''
            (NEEDS_INFO ''Sam'' ''Photos are missing'' (Some ''Please add <two> photos'')
               [''Photo of the roof'', ''Invoice & receipt'']) submittedStore)"

definition smtpDelivery :: Delivery where
  "smtpDelivery = \<lparr>
     deliveryStatus = E_SENT,
     deliveryError = None,
     deliveryPreviewUrl = None,
     deliverySentAt = None,
     deliveryMode = Some Smtp\<rparr>"

definition sentStore :: Store where
  "sentStore = snd (updateDecisionEmailDelivery ''t2'' ''t2'' ''co_5_7'' smtpDelivery needsInfoStore)"

text \<open>The stored needs-info record with markup in every text a contractor or reviewer supplies.\<close>

definition markupRecord :: StoredChangeOrder where
  "markupRecord = (needsInfoStore ! 0)\<lparr>
     input := exampleInput\<lparr>
       projectId := ''<h1>P</h1>'',
       contractorName := ''<script>alert(1)</script>''\<rparr>,
     contractorFacingMessage := Some ''<a href=\"x\">here</a>'',
     needsInfoChecklist := [''<b>one</b>'', ''<i>two</i>'']\<rparr>"

text \<open>The store after one blocked submission (no photo), and a parsed needs-info payload.\<close>

definition blockedStore :: Store where
  "blockedStore =
     snd (saveBlocked 5 7 ''t0'' ''t0'' (exampleInput\<lparr>photos := []\<rparr>)
            [''At least one supporting photo is required.''] [])"

definition needsInfoPayload :: DecisionPayload where
  "needsInfoPayload =
     PayloadNEEDS_INFO ''Sam'' ''Photos are missing'' ''Please add photos'' [''Photo of the roof'']"

section \<open>Properties\<close>

subsection \<open>Double arithmetic\<close>

lemma roundHalfEven_int: "roundHalfEven (of_int k) = of_int k"
  by (simp add: roundHalfEven_def)

lemma minSubnormal_pos: "0 < minSubnormal"
  unfolding minSubnormal_def by (rule divide_pos_pos) (rule zero_less_one, rule zero_less_power, simp)

lemma minNormal_le_1: "minNormal \<le> 1"
proof -
  have "(1::real) \<le> 2 ^ 1022" by (rule one_le_power) simp
  then show ?thesis unfolding minNormal_def by (simp only: divide_le_eq_1_pos)
qed

lemma minSubnormal_less_minNormal: "minSubnormal < minNormal"
proof -
  have "(2::real) ^ 1022 < 2 ^ 1074" by (rule power_strict_increasing) simp_all
  moreover have "(0::real) < 2 ^ 1022" by (rule zero_less_power) simp
  ultimately show ?thesis unfolding minSubnormal_def minNormal_def
    by (intro divide_strict_left_mono) (simp_all del: power_numeral)
qed

lemma overflowThreshold_pos: "1 \<le> overflowThreshold"
  unfolding overflowThreshold_def by (rule one_le_power) simp

lemma overflowThreshold_big: "2 ^ 53 \<le> overflowThreshold"
  unfolding overflowThreshold_def by (rule power_increasing) simp_all

lemma roundNearest_nat:
  assumes "0 < n" "n < 2 ^ 53"
  shows "roundNearest (real n) = Fin (real n)"
proof -
  let ?x = "real n"
  let ?e = "\<lfloor>log 2 ?x\<rfloor>"
  from assms(1) have x1: "1 \<le> ?x" by simp
  then have e0: "0 \<le> ?e" by simp
  from assms(2) have x53: "?x < 2 ^ 53"
    by (metis of_nat_less_iff of_nat_numeral of_nat_power)
  then have "?x < 2 powr 53" by (simp add: powr_realpow)
  with x1 have "log 2 ?x < 53" by (simp add: log_less_iff)
  then have e52: "?e \<le> 52" by linarith
  define k where "k = nat (52 - ?e)"
  from e0 e52 have ek: "of_int ?e - 52 = - real k" by (simp add: k_def)
  from x1 minNormal_le_1 have "\<not> ?x < minNormal" by linarith
  then have q: "quantum ?x = 1 / 2 ^ k"
    by (simp add: quantum_def ek powr_minus powr_realpow divide_inverse)
  have "?x / quantum ?x = of_int (int (n * 2 ^ k))"
    by (simp add: q)
  then have "roundHalfEven (?x / quantum ?x) = of_int (int (n * 2 ^ k))"
    by (simp only: roundHalfEven_int)
  then have r: "roundHalfEven (?x / quantum ?x) * quantum ?x = ?x"
    by (simp add: q)
  from x53 overflowThreshold_big have "\<not> overflowThreshold \<le> ?x" by linarith
  with assms(1) r show ?thesis
    by (simp add: roundNearest_def Let_def)
qed

lemma roundNearest_minSubnormal: "roundNearest minSubnormal = Fin minSubnormal"
proof -
  have q: "quantum minSubnormal = minSubnormal"
    using minSubnormal_less_minNormal by (simp only: quantum_def if_True)
  have "minSubnormal / minSubnormal = of_int 1" using minSubnormal_pos by simp
  then have "roundHalfEven (minSubnormal / quantum minSubnormal) = 1"
    by (simp only: q roundHalfEven_int)
  moreover have "\<not> overflowThreshold \<le> minSubnormal"
    using minSubnormal_less_minNormal minNormal_le_1 overflowThreshold_pos by linarith
  ultimately show ?thesis
    using minSubnormal_pos q by (simp add: roundNearest_def Let_def)
qed

lemma roundNearest_underflow: "roundNearest (minSubnormal / 4) = Fin 0"
proof -
  have lt: "minSubnormal / 4 < minNormal"
    using minSubnormal_pos minSubnormal_less_minNormal by linarith
  then have q: "quantum (minSubnormal / 4) = minSubnormal" by (simp only: quantum_def if_True)
  have "(minSubnormal / 4) / minSubnormal = 1 / 4" using minSubnormal_pos by simp
  then have "roundHalfEven (\<bar>minSubnormal / 4\<bar> / quantum \<bar>minSubnormal / 4\<bar>) = 0"
    using minSubnormal_pos by (simp only: q abs_of_pos) (simp add: roundHalfEven_def)
  moreover have "\<not> overflowThreshold \<le> 0"
    using overflowThreshold_pos by linarith
  ultimately show ?thesis
    using minSubnormal_pos by (simp only: roundNearest_def Let_def) (simp add: signedZero_def)
qed

lemma Fin_pos: "((0::number) < Fin x) = (0 < x)" "(Fin x \<le> (0::number)) = (x \<le> 0)" "(Fin x < (0::number)) = (x < 0)"
  by (simp_all add: less_number_def less_eq_number_def zero_number_def)

lemma Fin_add_nat:
  "a + b < 2 ^ 53 \<Longrightarrow> Fin (real a) + Fin (real b) = Fin (real (a + b))"
  using roundNearest_nat [of "a + b"]
  by (cases "a + b = 0") (auto simp: plus_number_def)

lemma Fin_div_nat:
  "0 < b \<Longrightarrow> b dvd a \<Longrightarrow> a div b < 2 ^ 53 \<Longrightarrow> Fin (real a) / Fin (real b) = Fin (real (a div b))"
proof -
  assume b: "0 < b" and d: "b dvd a" and l: "a div b < 2 ^ 53"
  from d b have q: "real a / real b = real (a div b)"
    by (simp add: real_of_nat_div)
  show ?thesis
  proof (cases "a = 0")
    case True
    with b show ?thesis by (simp add: divide_number_def signedZero_def)
  next
    case False
    from d obtain k where k: "a = b * k" by (auto simp: dvd_def)
    with False b have "0 < a div b" by simp
    from roundNearest_nat [OF this l] False b q show ?thesis
      by (simp add: divide_number_def)
  qed
qed


lemma quantum_pos: "0 < quantum m"
  by (simp add: quantum_def minSubnormal_pos)

lemma roundHalfEven_zero: "0 \<le> t \<Longrightarrow> (roundHalfEven t = 0) = (t \<le> 1 / 2)"
proof (cases "t < 1")
  case True
  assume "0 \<le> t"
  with True have "\<lfloor>t\<rfloor> = 0" by (simp add: floor_eq_iff)
  then show ?thesis by (simp add: roundHalfEven_def)
next
  case False
  have ge: "of_int \<lfloor>t\<rfloor> \<le> roundHalfEven t"
    by (simp add: roundHalfEven_def Let_def)
  from False have "(1::real) \<le> of_int \<lfloor>t\<rfloor>" by simp
  with ge have "roundHalfEven t \<noteq> 0" by linarith
  with False show ?thesis by simp
qed

lemma roundHalfEven_nonneg: "0 \<le> t \<Longrightarrow> 0 \<le> roundHalfEven t"
proof -
  assume "0 \<le> t"
  then have "0 \<le> \<lfloor>t\<rfloor>" by simp
  then have "(0::real) \<le> of_int \<lfloor>t\<rfloor>" by linarith
  then show ?thesis by (simp add: roundHalfEven_def Let_def)
qed

lemma quantum_normal: 
  assumes "minNormal \<le> x"
  shows "1 \<le> x / quantum x"
proof -
  have mp: "0 < minNormal" unfolding minNormal_def by simp
  with assms have x: "0 < x" by linarith
  have "(2::real) powr (of_int \<lfloor>log 2 x\<rfloor>) \<le> 2 powr (log 2 x)"
    by (rule powr_mono) simp_all
  with x have le: "(2::real) powr (of_int \<lfloor>log 2 x\<rfloor>) \<le> x" by simp
  have "(2::real) powr (of_int \<lfloor>log 2 x\<rfloor> - 52) \<le> 2 powr (of_int \<lfloor>log 2 x\<rfloor>)"
    by (rule powr_mono) simp_all
  with le have "(2::real) powr (of_int \<lfloor>log 2 x\<rfloor> - 52) \<le> x" by linarith
  moreover from assms have "quantum x = 2 powr (of_int \<lfloor>log 2 x\<rfloor> - 52)"
    by (simp add: quantum_def)
  ultimately show ?thesis using quantum_pos [of x] by simp
qed

lemma roundNearest_nonpositive:
  assumes "0 < x"
  shows "(roundNearest x \<le> (0::number)) = (x \<le> minSubnormal / 2)"
proof -
  let ?t = "x / quantum x"
  let ?r = "roundHalfEven ?t * quantum x"
  from assms quantum_pos [of x] have t0: "0 \<le> ?t" by simp
  have zero: "(?r = 0) = (?t \<le> 1 / 2)"
    using quantum_pos [of x] roundHalfEven_zero [OF t0] by simp
  have nonneg: "0 \<le> ?r"
    using quantum_pos [of x] roundHalfEven_nonneg [OF t0] by simp
  have res: "(roundNearest x \<le> (0::number)) = (?r = 0)"
    using assms nonneg overflowThreshold_pos
    by (auto simp: roundNearest_def Let_def signedInfinity_def signedZero_def
          less_eq_number_def zero_number_def)
  show ?thesis
  proof (cases "x < minNormal")
    case True
    then have "quantum x = minSubnormal" by (simp add: quantum_def)
    with minSubnormal_pos have "(?t \<le> 1 / 2) = (x \<le> minSubnormal / 2)"
      by (simp add: field_simps)
    with res zero show ?thesis by simp
  next
    case False
    then have "1 \<le> ?t" by (intro quantum_normal) simp
    then have "\<not> ?t \<le> 1 / 2" by linarith
    moreover from False minSubnormal_less_minNormal minSubnormal_pos
    have "\<not> x \<le> minSubnormal / 2" by linarith
    ultimately show ?thesis using res zero by simp
  qed
qed

lemma Fin_divide_nonpositive:
  assumes "0 < t" "0 < q"
  shows "(Fin t / Fin q \<le> (0::number)) = (t / q \<le> minSubnormal / 2)"
  using assms roundNearest_nonpositive [of "t / q"]
  by (simp add: divide_number_def)

lemma underflow_quotient: "(Fin minSubnormal + Fin 0 + Fin 0) / Fin 4 = Fin 0"
  using minSubnormal_pos
  by (simp add: plus_number_def divide_number_def roundNearest_minSubnormal roundNearest_underflow)

subsection \<open>Checklist validator\<close>

lemma lineItemViolations_code_head:
  "v \<in> set (lineItemViolations index items) \<Longrightarrow> hd (code v) = CHR ''l''"
  by (induction index items rule: lineItemViolations.induct) (auto split: if_splits)

lemma lineItemViolations_not_unit_price:
  "''unit_price_unclear'' \<notin> code ` set (lineItemViolations index items)"
proof
  assume "''unit_price_unclear'' \<in> code ` set (lineItemViolations index items)"
  then obtain v where v: "v \<in> set (lineItemViolations index items)"
    and c: "code v = ''unit_price_unclear''"
    by auto
  from lineItemViolations_code_head [OF v] c show False
    by simp
qed

text \<open>
  Claim C7, as stated, fails on the doubles of the program: the total is a rounded sum and
  the quotient a rounded quotient. For four units whose only cost is the smallest positive
  double the quotient underflows to zero and the violation is emitted, while the quotient
  of the reals is positive.
\<close>

theorem unit_price_unclear_underflow_counterexample:
  "quantity underflowInput = Fin 4
   \<and> materialCost underflowInput = Fin minSubnormal \<and> 0 < minSubnormal
   \<and> laborCost underflowInput = Fin 0 \<and> additionalCharges underflowInput = Fin 0
   \<and> ''unit_price_unclear'' \<in> code ` set (evaluateChecklist underflowInput)
   \<and> \<not> exactUnitPriceRule underflowInput"
  using lineItemViolations_not_unit_price [of 0 "lineItems underflowInput"] minSubnormal_pos
  by (simp add: evaluateChecklist_def Let_def underflowInput_def underflow_quotient Fin_pos
        exactUnitPriceRule_def)

text \<open>
  Claim C7, amended. With \<open>totalCost\<close> the sum \<open>materialCost + laborCost + additionalCharges\<close>
  as the program computes it, the list returned by \<open>evaluateChecklist\<close> holds a violation
  whose code is \<^verbatim>\<open>unit_price_unclear\<close> exactly when \<open>quantity > 0\<close> and
  \<open>totalCost / quantity \<le> 0\<close>, sum, quotient and comparisons being those of doubles. For a
  finite positive quantity and a finite positive total that is exactly when the quotient
  of the reals is at most half the smallest positive double.
\<close>

theorem evaluateChecklist_unit_price_unclear:
  "(''unit_price_unclear'' \<in> code ` set (evaluateChecklist inp)) =
   (quantity inp > (0::number) \<and>
    (materialCost inp + laborCost inp + additionalCharges inp) / quantity inp \<le> (0::number))
   \<and> (quantity inp = Fin q \<and> 0 < q
        \<and> materialCost inp + laborCost inp + additionalCharges inp = Fin t \<and> 0 < t \<longrightarrow>
      (''unit_price_unclear'' \<in> code ` set (evaluateChecklist inp)) = (t / q \<le> minSubnormal / 2))"
proof -
  have a: "(''unit_price_unclear'' \<in> code ` set (evaluateChecklist inp)) =
   (quantity inp > (0::number) \<and>
    (materialCost inp + laborCost inp + additionalCharges inp) / quantity inp \<le> (0::number))"
    using lineItemViolations_not_unit_price [of 0 "lineItems inp"]
    by (auto simp: evaluateChecklist_def Let_def)
  show ?thesis
  proof (intro conjI impI)
    show "(''unit_price_unclear'' \<in> code ` set (evaluateChecklist inp)) =
      (quantity inp > (0::number) \<and>
       (materialCost inp + laborCost inp + additionalCharges inp) / quantity inp \<le> (0::number))"
      by (rule a)
  next
    assume h: "quantity inp = Fin q \<and> 0 < q
        \<and> materialCost inp + laborCost inp + additionalCharges inp = Fin t \<and> 0 < t"
    then show "(''unit_price_unclear'' \<in> code ` set (evaluateChecklist inp)) = (t / q \<le> minSubnormal / 2)"
      using Fin_divide_nonpositive [of t q]
      by (simp add: a Fin_pos)
  qed
qed

theorem evaluateChecklist_unit_price_unclear_witness:
  "quantity underflowInput = Fin 4 \<and> (0::real) < 4
   \<and> materialCost underflowInput + laborCost underflowInput + additionalCharges underflowInput
       = Fin minSubnormal
   \<and> 0 < minSubnormal \<and> minSubnormal / 4 \<le> minSubnormal / 2
   \<and> ''unit_price_unclear'' \<in> code ` set (evaluateChecklist underflowInput)
   \<and> quantity exampleInput = Fin 10 \<and> (0::real) < 10
   \<and> materialCost exampleInput + laborCost exampleInput + additionalCharges exampleInput = Fin 150
   \<and> \<not> (150 / 10 \<le> minSubnormal / 2)
   \<and> ''unit_price_unclear'' \<notin> code ` set (evaluateChecklist exampleInput)"
proof -
  have u: "materialCost underflowInput + laborCost underflowInput + additionalCharges underflowInput
       = Fin minSubnormal" "quantity underflowInput = Fin 4"
    using minSubnormal_pos
    by (simp_all add: underflowInput_def plus_number_def roundNearest_minSubnormal)
  have e: "materialCost exampleInput + laborCost exampleInput + additionalCharges exampleInput = Fin 150"
    "quantity exampleInput = Fin 10"
    using Fin_add_nat [of 100 50] Fin_add_nat [of 150 0]
    by (simp_all add: exampleInput_def)
  have small: "\<not> ((150::real) / 10 \<le> minSubnormal / 2)"
    using minSubnormal_less_minNormal minNormal_le_1 by simp
  from evaluateChecklist_unit_price_unclear [of underflowInput 4 minSubnormal, THEN conjunct2]
    u minSubnormal_pos
  have 1: "''unit_price_unclear'' \<in> code ` set (evaluateChecklist underflowInput)"
    by simp
  from evaluateChecklist_unit_price_unclear [of exampleInput 10 150, THEN conjunct2] e small
  have 2: "''unit_price_unclear'' \<notin> code ` set (evaluateChecklist exampleInput)"
    by simp
  from 1 2 u e small minSubnormal_pos show ?thesis by simp
qed

subsection \<open>Lateness\<close>

text \<open>
  Claim C6. A time stamp that does not parse is late. One that parses is late exactly when
  the elapsed time is strictly greater than 24 hours: an elapsed time of exactly 24 hours
  is not late, 24 hours and one second is.
\<close>

theorem isPast24Hours_spec:
  "(dateGetTime s = None \<longrightarrow> isPast24Hours dateGetTime now s) \<and>
   (\<forall>t. dateGetTime s = Some t \<longrightarrow>
      isPast24Hours dateGetTime now s = (now - t > 24 * 60 * 60 * 1000)) \<and>
   (dateGetTime s = Some (now - 24 * 60 * 60 * 1000) \<longrightarrow> \<not> isPast24Hours dateGetTime now s) \<and>
   (dateGetTime s = Some (now - 24 * 60 * 60 * 1000 - 1000) \<longrightarrow> isPast24Hours dateGetTime now s)"
  by (simp add: isPast24Hours_def)

theorem isPast24Hours_spec_witness:
  "isPast24Hours (\<lambda>s. if s = ''2024-03-01T00:00:00.000Z'' then Some 1709251200000 else None)
     1709337600000 ''yesterday''
   \<and> \<not> isPast24Hours (\<lambda>s. if s = ''2024-03-01T00:00:00.000Z'' then Some 1709251200000 else None)
     1709337600000 ''2024-03-01T00:00:00.000Z''
   \<and> isPast24Hours (\<lambda>s. if s = ''2024-03-01T00:00:00.000Z'' then Some 1709251200000 else None)
     1709337601000 ''2024-03-01T00:00:00.000Z''
   \<and> \<not> isPast24Hours (\<lambda>s. if s = ''2024-03-01T00:00:00.000Z'' then Some 1709251200000 else None)
     1709337599999 ''2024-03-01T00:00:00.000Z''"
  using isPast24Hours_spec
      [of "\<lambda>s. if s = ''2024-03-01T00:00:00.000Z'' then Some 1709251200000 else None"
          "''yesterday''" 1709337600000]
    isPast24Hours_spec
      [of "\<lambda>s. if s = ''2024-03-01T00:00:00.000Z'' then Some 1709251200000 else None"
          "''2024-03-01T00:00:00.000Z''" 1709337600000]
    isPast24Hours_spec
      [of "\<lambda>s. if s = ''2024-03-01T00:00:00.000Z'' then Some 1709251200000 else None"
          "''2024-03-01T00:00:00.000Z''" 1709337601000]
    isPast24Hours_spec
      [of "\<lambda>s. if s = ''2024-03-01T00:00:00.000Z'' then Some 1709251200000 else None"
          "''2024-03-01T00:00:00.000Z''" 1709337599999]
  by simp

subsection \<open>Store lookups\<close>

lemma findIndex_Some:
  "findIndex P xs = Some i \<Longrightarrow> i < length xs \<and> P (xs ! i) \<and> find P xs = Some (xs ! i)"
proof (induction xs arbitrary: i)
  case Nil
  then show ?case by simp
next
  case (Cons x xs)
  then show ?case by (auto split: if_splits)
qed

lemma findIndex_None: "findIndex P xs = None \<Longrightarrow> find P xs = None"
  by (induction xs) (auto split: if_splits)

lemma find_findIndex:
  "find P xs = Some r \<Longrightarrow> \<exists>i. findIndex P xs = Some i \<and> i < length xs \<and> xs ! i = r"
proof (cases "findIndex P xs")
  case None
  assume "find P xs = Some r"
  with findIndex_None [OF None] show ?thesis by simp
next
  case (Some i)
  assume "find P xs = Some r"
  with findIndex_Some [OF Some] Some show ?thesis by simp
qed

lemma findIndex_present:
  "oid \<in> f ` set xs \<Longrightarrow> \<exists>i. findIndex (\<lambda>item. f item = oid) xs = Some i"
  by (induction xs) auto

lemma findIndex_update:
  "findIndex P xs = Some i \<Longrightarrow> P x \<Longrightarrow> findIndex P (xs[i := x]) = Some i"
proof (induction xs arbitrary: i)
  case Nil
  then show ?case by simp
next
  case (Cons a xs)
  then show ?case by (cases i) (auto split: if_splits)
qed

lemma find_update:
  assumes "findIndex P xs = Some i" "P x"
  shows "find P (xs[i := x]) = Some x"
proof -
  from findIndex_Some [OF assms(1)] have "i < length xs" by simp
  with findIndex_Some [OF findIndex_update [OF assms]] show ?thesis by simp
qed

lemma normalizeRecord_ident: "normalizeRecord r = r"
  by (cases "teamStatus r") (simp_all add: normalizeRecord_def split: option.splits)

subsection \<open>The example stores\<close>

lemma mintId_5_7: "mintId 5 7 = ''co_5_7''"
  by (simp add: mintId_def showInt_def showNat.simps digitChar_def)

lemma submittedStore_find: "findIndex (\<lambda>item. orderId item = ''co_5_7'') submittedStore = Some 0"
  by (simp add: submittedStore_def saveSubmission_def mintId_5_7 Let_def)

lemma approvedStore_facts:
  "find (\<lambda>item. orderId item = ''co_5_7'') approvedStore = Some (approvedStore ! 0)"
  "isFinalized (approvedStore ! 0)"
  "teamStatus (approvedStore ! 0) = T_APPROVED"
  "length approvedStore = 1"
  by (simp_all add: approvedStore_def applyTeamDecision_def submittedStore_find Let_def
        prepareDecisionEmail_def submittedStore_def saveSubmission_def mintId_5_7)

subsection \<open>Finalization\<close>

text \<open>
  Claim C1. Finalization is a one-way latch: when the record that the store resolves an
  identifier to is finalized, \<open>applyTeamDecision\<close> (for every decision) and
  \<open>updateTeamQueueItem\<close> (for every update) return that record as it is and leave the
  store as it is; neither signals an error.
\<close>

theorem finalized_is_latch:
  assumes "find (\<lambda>item. orderId item = oid) store = Some r" and "isFinalized r"
  shows "applyTeamDecision fmt now oid decision store = (Some r, store)
       \<and> updateTeamQueueItem updatedIso oid updates store = (Some r, store)"
proof -
  from find_findIndex [OF assms(1)] obtain i
    where "findIndex (\<lambda>item. orderId item = oid) store = Some i" and "store ! i = r"
    by blast
  with assms(2) show ?thesis
    by (simp add: applyTeamDecision_def updateTeamQueueItem_def)
qed

theorem finalized_is_latch_witness:
  "find (\<lambda>item. orderId item = ''co_5_7'') approvedStore = Some (approvedStore ! 0)
   \<and> isFinalized (approvedStore ! 0)
   \<and> applyTeamDecision exampleToFixed2 ''t2'' ''co_5_7''
         (DENY ''Sam'' OTHER ''Second thoughts'' None) approvedStore
       = (Some (approvedStore ! 0), approvedStore)
   \<and> updateTeamQueueItem ''t2'' ''co_5_7''
         \<lparr>updTeamStatus = Some T_NEW, updReviewerNotes = Some ''reopen''\<rparr> approvedStore
       = (Some (approvedStore ! 0), approvedStore)"
  using approvedStore_facts(1,2)
    finalized_is_latch [OF approvedStore_facts(1,2), where fmt = exampleToFixed2
      and now = "''t2''" and decision = "DENY ''Sam'' OTHER ''Second thoughts'' None"
      and updatedIso = "''t2''"
      and updates = "\<lparr>updTeamStatus = Some T_NEW, updReviewerNotes = Some ''reopen''\<rparr>"]
  by simp

subsection \<open>The finalization invariant\<close>

lemma in_set_updateE: "r \<in> set (xs[i := x]) \<Longrightarrow> r = x \<or> r \<in> set xs"
  using set_update_subset_insert [of xs i x] by auto

lemma save_records:
  "r \<in> set (snd (saveDraft nowMs rnd c u inp s)) \<Longrightarrow> r \<in> set s \<or> (\<not> isFinalized r \<and> teamStatus r = T_NEW)"
  "r \<in> set (snd (saveSubmission nowMs rnd c u sub inp s)) \<Longrightarrow> r \<in> set s \<or> (\<not> isFinalized r \<and> teamStatus r = T_NEW)"
  "r \<in> set (snd (saveBlocked nowMs rnd c u inp reasons s)) \<Longrightarrow> r \<in> set s \<or> (\<not> isFinalized r \<and> teamStatus r = T_NEW)"
  by (auto simp: saveDraft_def saveSubmission_def saveBlocked_def Let_def)

lemma applyTeamDecision_records:
  assumes "r \<in> set (snd (applyTeamDecision fmt now oid d s))"
  shows "r \<in> set s \<or> finalizedIffDecided r"
proof (cases "findIndex (\<lambda>item. orderId item = oid) s")
  case None
  with assms show ?thesis by (simp add: applyTeamDecision_def)
next
  case (Some i)
  show ?thesis
  proof (cases "isFinalized (s ! i)")
    case True
    with Some assms show ?thesis by (simp add: applyTeamDecision_def)
  next
    case False
    with Some assms show ?thesis
      by (cases d)
        (auto simp: applyTeamDecision_def Let_def prepareDecisionEmail_def finalizedIffDecided_def
           dest!: in_set_updateE)
  qed
qed

lemma updateTeamQueueItem_records:
  assumes "r \<in> set (snd (updateTeamQueueItem u oid upd s))"
  shows "r \<in> set s \<or>
         (\<not> isFinalized r \<and>
          (\<exists>c\<in>set s. \<not> isFinalized c \<and>
             teamStatus r = (case updTeamStatus upd of None \<Rightarrow> teamStatus c | Some t \<Rightarrow> t)))"
proof (cases "findIndex (\<lambda>item. orderId item = oid) s")
  case None
  with assms show ?thesis by (simp add: updateTeamQueueItem_def)
next
  case (Some i)
  from findIndex_Some [OF Some] have i: "i < length s" by simp
  show ?thesis
  proof (cases "isFinalized (s ! i)")
    case True
    with Some assms show ?thesis by (simp add: updateTeamQueueItem_def)
  next
    case False
    with Some assms i show ?thesis
      by (auto simp: updateTeamQueueItem_def Let_def dest!: in_set_updateE intro!: bexI [of _ "s ! i"])
  qed
qed

lemma updateDecisionEmailDelivery_records:
  assumes "r \<in> set (snd (updateDecisionEmailDelivery t u oid delivery s))"
  shows "\<exists>c\<in>set s. isFinalized r = isFinalized c \<and> teamStatus r = teamStatus c"
proof (cases "findIndex (\<lambda>item. orderId item = oid) s")
  case None
  with assms show ?thesis by (auto simp: updateDecisionEmailDelivery_def)
next
  case (Some i)
  from findIndex_Some [OF Some] have i: "s ! i \<in> set s" by simp
  from Some assms have "r \<in> set s \<or>
      (isFinalized r = isFinalized (s ! i) \<and> teamStatus r = teamStatus (s ! i))"
    by (auto simp: updateDecisionEmailDelivery_def Let_def normalizeRecord_ident
          dest!: in_set_updateE)
  with i show ?thesis by blast
qed

lemma reachable_finalized_decided:
  "reachable fmt s \<Longrightarrow> r \<in> set s \<Longrightarrow> isFinalized r
     \<Longrightarrow> teamStatus r = T_APPROVED \<or> teamStatus r = T_DENIED"
proof (induction arbitrary: r rule: reachable.induct)
  case reachable_empty
  then show ?case by simp
next
  case (reachable_saveDraft s nowMs rnd c u inp)
  from save_records(1) [OF reachable_saveDraft.prems(1)] reachable_saveDraft show ?case by blast
next
  case (reachable_saveSubmission s nowMs rnd c u sub inp)
  from save_records(2) [OF reachable_saveSubmission.prems(1)] reachable_saveSubmission show ?case by blast
next
  case (reachable_saveBlocked s nowMs rnd c u inp reasons)
  from save_records(3) [OF reachable_saveBlocked.prems(1)] reachable_saveBlocked show ?case by blast
next
  case (reachable_updateTeamQueueItem s u oid updates)
  from updateTeamQueueItem_records [OF reachable_updateTeamQueueItem.prems(1)]
    reachable_updateTeamQueueItem show ?case by blast
next
  case (reachable_applyTeamDecision s now oid decision)
  from applyTeamDecision_records [OF reachable_applyTeamDecision.prems(1)]
    reachable_applyTeamDecision show ?case by (auto simp: finalizedIffDecided_def)
next
  case (reachable_updateDecisionEmailDelivery s t u oid delivery)
  from updateDecisionEmailDelivery_records [OF reachable_updateDecisionEmailDelivery.prems(1)]
    reachable_updateDecisionEmailDelivery show ?case by metis
qed


lemma reachable_example_stores:
  "reachable fmt submittedStore"
  "reachable exampleToFixed2 approvedStore"
  "reachable fmt patchedStore"
  unfolding submittedStore_def approvedStore_def patchedStore_def
  by (intro reachable.intros)+

lemma updateTeamQueueItem_returns_stored:
  assumes "findIndex (\<lambda>item. orderId item = oid) s = Some i"
  shows "fst (updateTeamQueueItem u oid upd s) = Some (snd (updateTeamQueueItem u oid upd s) ! i)"
proof -
  from findIndex_Some [OF assms] have "i < length s" by simp
  with assms show ?thesis
    by (cases "isFinalized (s ! i)") (simp_all add: updateTeamQueueItem_def Let_def)
qed

lemma submittedStore_eq: "submittedStore = [submittedStore ! 0]"
  by (simp add: submittedStore_def saveSubmission_def Let_def)

lemma submittedStore_record:
  "\<not> isFinalized (submittedStore ! 0)" "teamStatus (submittedStore ! 0) = T_NEW"
  "status (submittedStore ! 0) = SUBMITTED" "orderId (submittedStore ! 0) = ''co_5_7''"
  by (simp_all add: submittedStore_def saveSubmission_def Let_def mintId_5_7)

lemma patchedStore_facts:
  "length patchedStore = 1"
  "teamStatus (patchedStore ! 0) = T_APPROVED"
  "\<not> isFinalized (patchedStore ! 0)"
  by (simp_all add: patchedStore_def updateTeamQueueItem_def Let_def
        submittedStore_def saveSubmission_def mintId_5_7)

text \<open>
  Claim C2, as stated, fails: the queue update accepts the team status \<^verbatim>\<open>APPROVED\<close> for a
  record that is not finalized and leaves \<open>isFinalized\<close> false. The store below is reached
  by one submission and one such update, through the \<^verbatim>\<open>PATCH\<close> route.
\<close>

theorem finalized_iff_decided_counterexample:
  "(\<forall>fmt. reachable fmt patchedStore)
   \<and> PATCH ''t1'' ''co_5_7'' (Some \<lparr>updTeamStatus = Some T_APPROVED, updReviewerNotes = None\<rparr>)
        submittedStore = (PatchOk200 (patchedStore ! 0), patchedStore)
   \<and> patchedStore ! 0 \<in> set patchedStore
   \<and> teamStatus (patchedStore ! 0) = T_APPROVED
   \<and> \<not> isFinalized (patchedStore ! 0)
   \<and> \<not> finalizedIffDecided (patchedStore ! 0)"
proof -
  have "fst (updateTeamQueueItem ''t1'' ''co_5_7''
               \<lparr>updTeamStatus = Some T_APPROVED, updReviewerNotes = None\<rparr> submittedStore)
        = Some (patchedStore ! 0)"
    using updateTeamQueueItem_returns_stored [OF submittedStore_find]
    by (simp add: patchedStore_def)
  then have "PATCH ''t1'' ''co_5_7'' (Some \<lparr>updTeamStatus = Some T_APPROVED, updReviewerNotes = None\<rparr>)
        submittedStore = (PatchOk200 (patchedStore ! 0), patchedStore)"
    by (auto simp: PATCH_def patchedStore_def split: prod.splits option.splits)
  then show ?thesis
    using reachable_example_stores(3) patchedStore_facts
    by (simp add: finalizedIffDecided_def)
qed

lemma new_record_decided:
  "\<not> isFinalized r \<and> teamStatus r = T_NEW \<Longrightarrow> finalizedIffDecided r"
  by (simp add: finalizedIffDecided_def)

lemma saveDraft_preserves:
  assumes "\<forall>r\<in>set s. finalizedIffDecided r"
  shows "\<forall>r\<in>set (snd (saveDraft nowMs rnd c u inp s)). finalizedIffDecided r"
  using assms save_records(1) new_record_decided by blast

lemma saveSubmission_preserves:
  assumes "\<forall>r\<in>set s. finalizedIffDecided r"
  shows "\<forall>r\<in>set (snd (saveSubmission nowMs rnd c u sub inp s)). finalizedIffDecided r"
  using assms save_records(2) new_record_decided by blast

lemma saveBlocked_preserves:
  assumes "\<forall>r\<in>set s. finalizedIffDecided r"
  shows "\<forall>r\<in>set (snd (saveBlocked nowMs rnd c u inp reasons s)). finalizedIffDecided r"
  using assms save_records(3) new_record_decided by blast

lemma applyTeamDecision_preserves:
  assumes "\<forall>r\<in>set s. finalizedIffDecided r"
  shows "\<forall>r\<in>set (snd (applyTeamDecision fmt now oid decision s)). finalizedIffDecided r"
  using assms applyTeamDecision_records by blast

lemma updateDecisionEmailDelivery_preserves:
  assumes "\<forall>r\<in>set s. finalizedIffDecided r"
  shows "\<forall>r\<in>set (snd (updateDecisionEmailDelivery t u oid delivery s)). finalizedIffDecided r"
proof
  fix r
  assume "r \<in> set (snd (updateDecisionEmailDelivery t u oid delivery s))"
  from updateDecisionEmailDelivery_records [OF this] obtain c
    where "c \<in> set s" "isFinalized r = isFinalized c" "teamStatus r = teamStatus c"
    by blast
  with assms show "finalizedIffDecided r"
    by (simp add: finalizedIffDecided_def)
qed

lemma updateTeamQueueItem_preserves:
  assumes inv: "\<forall>r\<in>set s. finalizedIffDecided r"
    and upd: "updTeamStatus updates \<noteq> Some T_APPROVED \<and> updTeamStatus updates \<noteq> Some T_DENIED"
  shows "\<forall>r\<in>set (snd (updateTeamQueueItem u oid updates s)). finalizedIffDecided r"
proof
  fix r
  assume "r \<in> set (snd (updateTeamQueueItem u oid updates s))"
  from updateTeamQueueItem_records [OF this]
  consider "r \<in> set s"
    | c where "\<not> isFinalized r" "c \<in> set s" "\<not> isFinalized c"
        "teamStatus r = (case updTeamStatus updates of None \<Rightarrow> teamStatus c | Some t \<Rightarrow> t)"
    by blast
  then show "finalizedIffDecided r"
  proof cases
    case 1
    with inv show ?thesis by simp
  next
    case 2
    from inv 2(2) have "finalizedIffDecided c" by simp
    with 2(1,3,4) upd show ?thesis
      by (cases "updTeamStatus updates") (simp_all add: finalizedIffDecided_def)
  qed
qed

lemma find_Some_in_set: "find P xs = Some x \<Longrightarrow> x \<in> set xs"
  by (induction xs) (auto split: if_splits)

lemma finalization_preserved:
  "(reachable fmt s \<longrightarrow>
      (\<forall>r\<in>set s. isFinalized r \<longrightarrow> teamStatus r = T_APPROVED \<or> teamStatus r = T_DENIED))
   \<and> ((\<forall>r\<in>set s. finalizedIffDecided r) \<longrightarrow>
        (\<forall>r\<in>set (snd (saveDraft nowMs rnd c u inp s)). finalizedIffDecided r)
      \<and> (\<forall>r\<in>set (snd (saveSubmission nowMs rnd c u sub inp s)). finalizedIffDecided r)
      \<and> (\<forall>r\<in>set (snd (saveBlocked nowMs rnd c u inp reasons s)). finalizedIffDecided r)
      \<and> (\<forall>r\<in>set (snd (applyTeamDecision fmt now oid decision s)). finalizedIffDecided r)
      \<and> (\<forall>r\<in>set (snd (updateDecisionEmailDelivery t u oid delivery s)). finalizedIffDecided r)
      \<and> (updTeamStatus updates \<noteq> Some T_APPROVED \<and> updTeamStatus updates \<noteq> Some T_DENIED \<longrightarrow>
           (\<forall>r\<in>set (snd (updateTeamQueueItem u oid updates s)). finalizedIffDecided r)))"
proof (intro conjI impI)
  assume "reachable fmt s"
  then show "\<forall>r\<in>set s. isFinalized r \<longrightarrow> teamStatus r = T_APPROVED \<or> teamStatus r = T_DENIED"
    using reachable_finalized_decided by blast
next
  assume "\<forall>r\<in>set s. finalizedIffDecided r"
  then show "\<forall>r\<in>set (snd (saveDraft nowMs rnd c u inp s)). finalizedIffDecided r"
    by (rule saveDraft_preserves)
next
  assume "\<forall>r\<in>set s. finalizedIffDecided r"
  then show "\<forall>r\<in>set (snd (saveSubmission nowMs rnd c u sub inp s)). finalizedIffDecided r"
    by (rule saveSubmission_preserves)
next
  assume "\<forall>r\<in>set s. finalizedIffDecided r"
  then show "\<forall>r\<in>set (snd (saveBlocked nowMs rnd c u inp reasons s)). finalizedIffDecided r"
    by (rule saveBlocked_preserves)
next
  assume "\<forall>r\<in>set s. finalizedIffDecided r"
  then show "\<forall>r\<in>set (snd (applyTeamDecision fmt now oid decision s)). finalizedIffDecided r"
    by (rule applyTeamDecision_preserves)
next
  assume "\<forall>r\<in>set s. finalizedIffDecided r"
  then show "\<forall>r\<in>set (snd (updateDecisionEmailDelivery t u oid delivery s)). finalizedIffDecided r"
    by (rule updateDecisionEmailDelivery_preserves)
next
  assume "\<forall>r\<in>set s. finalizedIffDecided r"
    and "updTeamStatus updates \<noteq> Some T_APPROVED \<and> updTeamStatus updates \<noteq> Some T_DENIED"
  then show "\<forall>r\<in>set (snd (updateTeamQueueItem u oid updates s)). finalizedIffDecided r"
    by (rule updateTeamQueueItem_preserves)
qed

lemma updateTeamQueueItem_applied:
  assumes "find (\<lambda>item. orderId item = oid) s = Some cur" "\<not> isFinalized cur"
  shows "updateTeamQueueItem u oid updates s =
           (Some (cur\<lparr>
              teamStatus := (case updTeamStatus updates of None \<Rightarrow> teamStatus cur | Some t \<Rightarrow> t),
              reviewerNotes := (case updReviewerNotes updates of None \<Rightarrow> reviewerNotes cur | Some n \<Rightarrow> n),
              updatedAt := u\<rparr>),
            snd (updateTeamQueueItem u oid updates s))"
    and "find (\<lambda>item. orderId item = oid) (snd (updateTeamQueueItem u oid updates s)) =
           Some (cur\<lparr>
              teamStatus := (case updTeamStatus updates of None \<Rightarrow> teamStatus cur | Some t \<Rightarrow> t),
              reviewerNotes := (case updReviewerNotes updates of None \<Rightarrow> reviewerNotes cur | Some n \<Rightarrow> n),
              updatedAt := u\<rparr>)"
proof -
  from find_findIndex [OF assms(1)] obtain i
    where i: "findIndex (\<lambda>item. orderId item = oid) s = Some i" and r: "s ! i = cur"
    by blast
  from findIndex_Some [OF i] r have oid: "orderId cur = oid" by simp
  let ?next = "cur\<lparr>
              teamStatus := (case updTeamStatus updates of None \<Rightarrow> teamStatus cur | Some t \<Rightarrow> t),
              reviewerNotes := (case updReviewerNotes updates of None \<Rightarrow> reviewerNotes cur | Some n \<Rightarrow> n),
              updatedAt := u\<rparr>"
  from i r assms(2) have res: "updateTeamQueueItem u oid updates s = (Some ?next, s[i := ?next])"
    by (simp add: updateTeamQueueItem_def Let_def)
  then show "updateTeamQueueItem u oid updates s = (Some ?next, snd (updateTeamQueueItem u oid updates s))"
    by simp
  from find_update [OF i, of ?next] oid res
  show "find (\<lambda>item. orderId item = oid) (snd (updateTeamQueueItem u oid updates s)) = Some ?next"
    by simp
qed

lemma updateTeamQueueItem_breaks:
  assumes "find (\<lambda>item. orderId item = oid) s = Some cur" "\<not> isFinalized cur"
    and "updTeamStatus updates = Some T_APPROVED \<or> updTeamStatus updates = Some T_DENIED"
  shows "\<not> (\<forall>r\<in>set (snd (updateTeamQueueItem u oid updates s)). finalizedIffDecided r)"
proof -
  let ?next = "cur\<lparr>
              teamStatus := (case updTeamStatus updates of None \<Rightarrow> teamStatus cur | Some t \<Rightarrow> t),
              reviewerNotes := (case updReviewerNotes updates of None \<Rightarrow> reviewerNotes cur | Some n \<Rightarrow> n),
              updatedAt := u\<rparr>"
  from updateTeamQueueItem_applied(2) [OF assms(1,2), of u updates]
  have "?next \<in> set (snd (updateTeamQueueItem u oid updates s))"
    by (rule find_Some_in_set)
  moreover from assms(2,3) have "\<not> finalizedIffDecided ?next"
    by (auto simp: finalizedIffDecided_def)
  ultimately show ?thesis by blast
qed

text \<open>
  Claim C2, amended. In every reachable store a finalized record has team status
  \<^verbatim>\<open>APPROVED\<close> or \<^verbatim>\<open>DENIED\<close>. The converse, and so the biconditional, is kept by
  \<open>saveDraft\<close>, \<open>saveSubmission\<close>, \<open>saveBlocked\<close>, \<open>applyTeamDecision\<close> and
  \<open>updateDecisionEmailDelivery\<close>, and by \<open>updateTeamQueueItem\<close> when the update does not
  set the team status to \<^verbatim>\<open>APPROVED\<close> or \<^verbatim>\<open>DENIED\<close>. On a record that is not finalized
  \<open>updateTeamQueueItem\<close> stores the given team status and notes and the clock reading
  and nothing else, so \<open>isFinalized\<close> stays false; given \<^verbatim>\<open>APPROVED\<close> or \<^verbatim>\<open>DENIED\<close> the
  resulting store breaks the biconditional.
\<close>

theorem finalization_invariant:
  "(reachable fmt s \<longrightarrow>
      (\<forall>r\<in>set s. isFinalized r \<longrightarrow> teamStatus r = T_APPROVED \<or> teamStatus r = T_DENIED))
   \<and> ((\<forall>r\<in>set s. finalizedIffDecided r) \<longrightarrow>
        (\<forall>r\<in>set (snd (saveDraft nowMs rnd c u inp s)). finalizedIffDecided r)
      \<and> (\<forall>r\<in>set (snd (saveSubmission nowMs rnd c u sub inp s)). finalizedIffDecided r)
      \<and> (\<forall>r\<in>set (snd (saveBlocked nowMs rnd c u inp reasons s)). finalizedIffDecided r)
      \<and> (\<forall>r\<in>set (snd (applyTeamDecision fmt now oid decision s)). finalizedIffDecided r)
      \<and> (\<forall>r\<in>set (snd (updateDecisionEmailDelivery t u oid delivery s)). finalizedIffDecided r)
      \<and> (updTeamStatus updates \<noteq> Some T_APPROVED \<and> updTeamStatus updates \<noteq> Some T_DENIED \<longrightarrow>
           (\<forall>r\<in>set (snd (updateTeamQueueItem u oid updates s)). finalizedIffDecided r)))
   \<and> (find (\<lambda>item. orderId item = oid) s = Some cur \<and> \<not> isFinalized cur \<longrightarrow>
        updateTeamQueueItem u oid updates s =
          (Some (cur\<lparr>
             teamStatus := (case updTeamStatus updates of None \<Rightarrow> teamStatus cur | Some t \<Rightarrow> t),
             reviewerNotes := (case updReviewerNotes updates of None \<Rightarrow> reviewerNotes cur | Some n \<Rightarrow> n),
             updatedAt := u\<rparr>),
           snd (updateTeamQueueItem u oid updates s))
      \<and> find (\<lambda>item. orderId item = oid) (snd (updateTeamQueueItem u oid updates s)) =
          Some (cur\<lparr>
             teamStatus := (case updTeamStatus updates of None \<Rightarrow> teamStatus cur | Some t \<Rightarrow> t),
             reviewerNotes := (case updReviewerNotes updates of None \<Rightarrow> reviewerNotes cur | Some n \<Rightarrow> n),
             updatedAt := u\<rparr>)
      \<and> (\<exists>r'. find (\<lambda>item. orderId item = oid) (snd (updateTeamQueueItem u oid updates s)) = Some r'
             \<and> teamStatus r' = (case updTeamStatus updates of None \<Rightarrow> teamStatus cur | Some t \<Rightarrow> t)
             \<and> \<not> isFinalized r')
      \<and> (updTeamStatus updates = Some T_APPROVED \<or> updTeamStatus updates = Some T_DENIED \<longrightarrow>
           \<not> (\<forall>r\<in>set (snd (updateTeamQueueItem u oid updates s)). finalizedIffDecided r)))"
proof (rule conjI [OF _ conjI])
  show "reachable fmt s \<longrightarrow>
      (\<forall>r\<in>set s. isFinalized r \<longrightarrow> teamStatus r = T_APPROVED \<or> teamStatus r = T_DENIED)"
    using finalization_preserved [of fmt s] by (rule conjunct1)
next
  show "(\<forall>r\<in>set s. finalizedIffDecided r) \<longrightarrow>
        (\<forall>r\<in>set (snd (saveDraft nowMs rnd c u inp s)). finalizedIffDecided r)
      \<and> (\<forall>r\<in>set (snd (saveSubmission nowMs rnd c u sub inp s)). finalizedIffDecided r)
      \<and> (\<forall>r\<in>set (snd (saveBlocked nowMs rnd c u inp reasons s)). finalizedIffDecided r)
      \<and> (\<forall>r\<in>set (snd (applyTeamDecision fmt now oid decision s)). finalizedIffDecided r)
      \<and> (\<forall>r\<in>set (snd (updateDecisionEmailDelivery t u oid delivery s)). finalizedIffDecided r)
      \<and> (updTeamStatus updates \<noteq> Some T_APPROVED \<and> updTeamStatus updates \<noteq> Some T_DENIED \<longrightarrow>
           (\<forall>r\<in>set (snd (updateTeamQueueItem u oid updates s)). finalizedIffDecided r))"
    by (rule finalization_preserved [THEN conjunct2])
next
  show "find (\<lambda>item. orderId item = oid) s = Some cur \<and> \<not> isFinalized cur \<longrightarrow>
        updateTeamQueueItem u oid updates s =
          (Some (cur\<lparr>
             teamStatus := (case updTeamStatus updates of None \<Rightarrow> teamStatus cur | Some t \<Rightarrow> t),
             reviewerNotes := (case updReviewerNotes updates of None \<Rightarrow> reviewerNotes cur | Some n \<Rightarrow> n),
             updatedAt := u\<rparr>),
           snd (updateTeamQueueItem u oid updates s))
      \<and> find (\<lambda>item. orderId item = oid) (snd (updateTeamQueueItem u oid updates s)) =
          Some (cur\<lparr>
             teamStatus := (case updTeamStatus updates of None \<Rightarrow> teamStatus cur | Some t \<Rightarrow> t),
             reviewerNotes := (case updReviewerNotes updates of None \<Rightarrow> reviewerNotes cur | Some n \<Rightarrow> n),
             updatedAt := u\<rparr>)
      \<and> (\<exists>r'. find (\<lambda>item. orderId item = oid) (snd (updateTeamQueueItem u oid updates s)) = Some r'
             \<and> teamStatus r' = (case updTeamStatus updates of None \<Rightarrow> teamStatus cur | Some t \<Rightarrow> t)
             \<and> \<not> isFinalized r')
      \<and> (updTeamStatus updates = Some T_APPROVED \<or> updTeamStatus updates = Some T_DENIED \<longrightarrow>
           \<not> (\<forall>r\<in>set (snd (updateTeamQueueItem u oid updates s)). finalizedIffDecided r))"
  proof (intro impI, elim conjE, intro conjI impI)
    assume f: "find (\<lambda>item. orderId item = oid) s = Some cur" and nf: "\<not> isFinalized cur"
    note ap = updateTeamQueueItem_applied [OF f nf, of u updates]
    show "updateTeamQueueItem u oid updates s =
          (Some (cur\<lparr>
             teamStatus := (case updTeamStatus updates of None \<Rightarrow> teamStatus cur | Some t \<Rightarrow> t),
             reviewerNotes := (case updReviewerNotes updates of None \<Rightarrow> reviewerNotes cur | Some n \<Rightarrow> n),
             updatedAt := u\<rparr>),
           snd (updateTeamQueueItem u oid updates s))"
      by (rule ap(1))
    show "find (\<lambda>item. orderId item = oid) (snd (updateTeamQueueItem u oid updates s)) =
          Some (cur\<lparr>
             teamStatus := (case updTeamStatus updates of None \<Rightarrow> teamStatus cur | Some t \<Rightarrow> t),
             reviewerNotes := (case updReviewerNotes updates of None \<Rightarrow> reviewerNotes cur | Some n \<Rightarrow> n),
             updatedAt := u\<rparr>)"
      by (rule ap(2))
    show "\<exists>r'. find (\<lambda>item. orderId item = oid) (snd (updateTeamQueueItem u oid updates s)) = Some r'
             \<and> teamStatus r' = (case updTeamStatus updates of None \<Rightarrow> teamStatus cur | Some t \<Rightarrow> t)
             \<and> \<not> isFinalized r'"
      using nf by (simp add: ap(2))
    assume "updTeamStatus updates = Some T_APPROVED \<or> updTeamStatus updates = Some T_DENIED"
    with f nf show "\<not> (\<forall>r\<in>set (snd (updateTeamQueueItem u oid updates s)). finalizedIffDecided r)"
      by (rule updateTeamQueueItem_breaks)
  qed
qed

theorem finalization_invariant_witness:
  "reachable exampleToFixed2 approvedStore
   \<and> approvedStore ! 0 \<in> set approvedStore
   \<and> isFinalized (approvedStore ! 0)
   \<and> (teamStatus (approvedStore ! 0) = T_APPROVED \<or> teamStatus (approvedStore ! 0) = T_DENIED)
   \<and> finalizedIffDecided (submittedStore ! 0)
   \<and> finalizedIffDecided (approvedStore ! 0)
   \<and> find (\<lambda>item. orderId item = ''co_5_7'') submittedStore = Some (submittedStore ! 0)
   \<and> \<not> isFinalized (submittedStore ! 0)
   \<and> find (\<lambda>item. orderId item = ''co_5_7'') patchedStore =
         Some ((submittedStore ! 0)\<lparr>teamStatus := T_APPROVED, updatedAt := ''t1''\<rparr>)
   \<and> \<not> (\<forall>r\<in>set patchedStore. finalizedIffDecided r)"
proof -
  have a: "approvedStore ! 0 \<in> set approvedStore"
    using approvedStore_facts(4) nth_mem [of 0 approvedStore] by simp
  have s0: "finalizedIffDecided (submittedStore ! 0)"
    using submittedStore_record(1,2) by (simp add: finalizedIffDecided_def)
  have s: "\<forall>r\<in>set submittedStore. finalizedIffDecided r"
    using s0 by (subst submittedStore_eq) simp
  have d: "\<forall>r\<in>set approvedStore. finalizedIffDecided r"
    unfolding approvedStore_def
    using s finalization_invariant [where s = submittedStore and fmt = exampleToFixed2
        and now = "''t1''" and oid = "''co_5_7''"
        and decision = "APPROVE ''Sam'' 120 ''Checked on site'' (Some ''Approved as quoted'')",
        THEN conjunct2, THEN conjunct1]
    by blast
  have t: "teamStatus (approvedStore ! 0) = T_APPROVED \<or> teamStatus (approvedStore ! 0) = T_DENIED"
    using finalization_invariant [where s = approvedStore and fmt = exampleToFixed2, THEN conjunct1]
      reachable_example_stores(2) a approvedStore_facts(2)
    by blast
  have f: "find (\<lambda>item. orderId item = ''co_5_7'') submittedStore = Some (submittedStore ! 0)"
    using findIndex_Some [OF submittedStore_find] by simp
  note p = finalization_invariant [where s = submittedStore and oid = "''co_5_7''"
      and cur = "submittedStore ! 0" and u = "''t1''"
      and updates = "\<lparr>updTeamStatus = Some T_APPROVED, updReviewerNotes = None\<rparr>",
      THEN conjunct2, THEN conjunct2]
  from p f submittedStore_record(1)
  have p1: "find (\<lambda>item. orderId item = ''co_5_7'') patchedStore =
         Some ((submittedStore ! 0)\<lparr>teamStatus := T_APPROVED, updatedAt := ''t1''\<rparr>)"
    by (simp add: patchedStore_def)
  from p f submittedStore_record(1)
  have p2: "\<not> (\<forall>r\<in>set patchedStore. finalizedIffDecided r)"
    by (simp add: patchedStore_def)
  from d a have "finalizedIffDecided (approvedStore ! 0)"
    by blast
  with reachable_example_stores(2) a approvedStore_facts(2) t s0 f submittedStore_record(1) p1 p2
  show ?thesis
    by simp
qed

subsection \<open>Delivery reconciliation\<close>

lemma updateDecisionEmailDelivery_found:
  assumes "findIndex (\<lambda>item. orderId item = oid) store = Some i"
  shows "updateDecisionEmailDelivery sentNow updatedNow oid delivery store =
     (Some ((store ! i)\<lparr>
         decisionEmailStatus := deliveryStatus delivery,
         decisionEmailSentAt := Some (case deliverySentAt delivery of None \<Rightarrow> sentNow | Some t \<Rightarrow> t),
         decisionEmailError := deliveryError delivery,
         decisionEmailPreviewUrl := deliveryPreviewUrl delivery,
         decisionEmailMode := deliveryMode delivery,
         updatedAt := updatedNow\<rparr>),
      store[i := (store ! i)\<lparr>
         decisionEmailStatus := deliveryStatus delivery,
         decisionEmailSentAt := Some (case deliverySentAt delivery of None \<Rightarrow> sentNow | Some t \<Rightarrow> t),
         decisionEmailError := deliveryError delivery,
         decisionEmailPreviewUrl := deliveryPreviewUrl delivery,
         decisionEmailMode := deliveryMode delivery,
         updatedAt := updatedNow\<rparr>])"
  using assms by (simp add: updateDecisionEmailDelivery_def Let_def normalizeRecord_ident)

lemma update_same_key:
  "i < length xs \<Longrightarrow> f x = f (xs ! i) \<Longrightarrow> map f (xs[i := x]) = map f xs"
  by (simp add: map_update list_update_same_conv)

lemma updateDecisionEmailDelivery_ids:
  "map orderId (snd (updateDecisionEmailDelivery t u oid delivery s)) = map orderId s"
proof (cases "findIndex (\<lambda>item. orderId item = oid) s")
  case None
  then show ?thesis by (simp add: updateDecisionEmailDelivery_def)
next
  case (Some i)
  from findIndex_Some [OF Some] have "i < length s" by simp
  with Some show ?thesis
    by (simp add: updateDecisionEmailDelivery_def Let_def normalizeRecord_ident update_same_key)
qed

lemma applyTeamDecision_ids:
  "map orderId (snd (applyTeamDecision fmt now oid decision s)) = map orderId s"
proof (cases "findIndex (\<lambda>item. orderId item = oid) s")
  case None
  then show ?thesis by (simp add: applyTeamDecision_def)
next
  case (Some i)
  from findIndex_Some [OF Some] have "i < length s" by simp
  with Some show ?thesis
    by (cases decision)
      (simp_all add: applyTeamDecision_def Let_def prepareDecisionEmail_def update_same_key)
qed

lemma updateTeamQueueItem_ids:
  "map orderId (snd (updateTeamQueueItem u oid updates s)) = map orderId s"
proof (cases "findIndex (\<lambda>item. orderId item = oid) s")
  case None
  then show ?thesis by (simp add: updateTeamQueueItem_def)
next
  case (Some i)
  from findIndex_Some [OF Some] have "i < length s" by simp
  with Some show ?thesis
    by (simp add: updateTeamQueueItem_def Let_def update_same_key)
qed

lemma same_ids: "map orderId s' = map orderId s \<Longrightarrow> orderId ` set s' = orderId ` set s"
  by (metis list.set_map)

lemma submittedStore_id: "''co_5_7'' \<in> orderId ` set submittedStore"
  by (subst submittedStore_eq) (simp add: submittedStore_record(4))

lemma approvedStore_id: "''co_5_7'' \<in> orderId ` set approvedStore"
  unfolding approvedStore_def
  using submittedStore_id same_ids [OF applyTeamDecision_ids] by simp

text \<open>
  Claim C10. For an identifier present in the store, \<open>updateDecisionEmailDelivery\<close> always
  sets \<open>decisionEmailSentAt\<close>: to the supplied \<open>sentAt\<close> when there is one, otherwise to
  the clock reading, whatever the new status (\<^verbatim>\<open>FAILED\<close> included). It overwrites
  \<open>decisionEmailError\<close>, \<open>decisionEmailPreviewUrl\<close> and \<open>decisionEmailMode\<close> with the supplied
  values, an omitted one clearing the field.
\<close>

theorem updateDecisionEmailDelivery_overwrites:
  assumes "oid \<in> orderId ` set store"
  shows "\<exists>i r'. updateDecisionEmailDelivery sentNow updatedNow oid delivery store = (Some r', store[i := r'])
     \<and> findIndex (\<lambda>item. orderId item = oid) store = Some i
     \<and> decisionEmailSentAt r' = Some (case deliverySentAt delivery of None \<Rightarrow> sentNow | Some t \<Rightarrow> t)
     \<and> decisionEmailStatus r' = deliveryStatus delivery
     \<and> decisionEmailError r' = deliveryError delivery
     \<and> decisionEmailPreviewUrl r' = deliveryPreviewUrl delivery
     \<and> decisionEmailMode r' = deliveryMode delivery"
proof -
  from findIndex_present [OF assms] obtain i
    where i: "findIndex (\<lambda>item. orderId item = oid) store = Some i" by blast
  show ?thesis
    using i by (simp add: updateDecisionEmailDelivery_found [OF i])
qed

theorem updateDecisionEmailDelivery_overwrites_witness:
  "''co_5_7'' \<in> orderId ` set approvedStore
   \<and> (\<exists>r. fst (updateDecisionEmailDelivery ''t3'' ''t4'' ''co_5_7'' previewDelivery approvedStore) = Some r
        \<and> decisionEmailMode r = Some Preview
        \<and> decisionEmailPreviewUrl r = Some ''https://mail.example.com/preview/1'')
   \<and> (\<exists>r'. fst (updateDecisionEmailDelivery ''t5'' ''t6'' ''co_5_7'' failedDelivery
                   (snd (updateDecisionEmailDelivery ''t3'' ''t4'' ''co_5_7'' previewDelivery approvedStore)))
              = Some r'
        \<and> decisionEmailStatus r' = E_FAILED
        \<and> decisionEmailSentAt r' = Some ''t5''
        \<and> decisionEmailError r' = Some ''Invalid contractor email address.''
        \<and> decisionEmailPreviewUrl r' = None
        \<and> decisionEmailMode r' = None)"
proof -
  let ?s1 = "snd (updateDecisionEmailDelivery ''t3'' ''t4'' ''co_5_7'' previewDelivery approvedStore)"
  have "orderId ` set ?s1 = orderId ` set approvedStore"
    by (rule same_ids [OF updateDecisionEmailDelivery_ids])
  with approvedStore_id have id1: "''co_5_7'' \<in> orderId ` set ?s1"
    by simp
  show ?thesis
    using approvedStore_id
      updateDecisionEmailDelivery_overwrites [OF approvedStore_id, where sentNow = "''t3''"
        and updatedNow = "''t4''" and delivery = previewDelivery]
      updateDecisionEmailDelivery_overwrites [OF id1, where sentNow = "''t5''"
        and updatedNow = "''t6''" and delivery = failedDelivery]
    by (auto simp: previewDelivery_def failedDelivery_def)
qed

text \<open>
  Claim C8. For an identifier present in the store, after two calls of
  \<open>updateDecisionEmailDelivery\<close> the delivery fields of the record are those of the second
  call (nothing of the first call remains: the outcome is that of the second call alone);
  both calls succeed whether or not the record is finalized, and each sets \<open>updatedAt\<close> to
  its own clock reading. Each call returns the record that it stores: after it the store
  resolves the identifier to the returned record, which stands in the place of the record
  that it replaces, the other records as they were.
\<close>

theorem updateDecisionEmailDelivery_last_write_wins:
  assumes "oid \<in> orderId ` set store"
  shows "\<exists>r1 s1 r2 s2.
       updateDecisionEmailDelivery sent1 upd1 oid d1 store = (Some r1, s1)
     \<and> updateDecisionEmailDelivery sent2 upd2 oid d2 s1 = (Some r2, s2)
     \<and> updatedAt r1 = upd1 \<and> updatedAt r2 = upd2
     \<and> decisionEmailStatus r2 = deliveryStatus d2
     \<and> decisionEmailError r2 = deliveryError d2
     \<and> decisionEmailPreviewUrl r2 = deliveryPreviewUrl d2
     \<and> decisionEmailMode r2 = deliveryMode d2
     \<and> decisionEmailSentAt r2 = Some (case deliverySentAt d2 of None \<Rightarrow> sent2 | Some t \<Rightarrow> t)
     \<and> (Some r2, s2) = updateDecisionEmailDelivery sent2 upd2 oid d2 store
     \<and> find (\<lambda>item. orderId item = oid) s1 = Some r1
     \<and> find (\<lambda>item. orderId item = oid) s2 = Some r2
     \<and> (\<exists>i. findIndex (\<lambda>item. orderId item = oid) store = Some i
            \<and> s1 = store[i := r1] \<and> s2 = store[i := r2])"
proof -
  from findIndex_present [OF assms] obtain i
    where i: "findIndex (\<lambda>item. orderId item = oid) store = Some i" by blast
  from findIndex_Some [OF i] have len: "i < length store" and oid: "orderId (store ! i) = oid"
    by simp_all
  let ?r1 = "(store ! i)\<lparr>
         decisionEmailStatus := deliveryStatus d1,
         decisionEmailSentAt := Some (case deliverySentAt d1 of None \<Rightarrow> sent1 | Some t \<Rightarrow> t),
         decisionEmailError := deliveryError d1,
         decisionEmailPreviewUrl := deliveryPreviewUrl d1,
         decisionEmailMode := deliveryMode d1,
         updatedAt := upd1\<rparr>"
  have i1: "findIndex (\<lambda>item. orderId item = oid) (store[i := ?r1]) = Some i"
    using i oid by (intro findIndex_update) simp_all
  let ?r2 = "?r1\<lparr>
         decisionEmailStatus := deliveryStatus d2,
         decisionEmailSentAt := Some (case deliverySentAt d2 of None \<Rightarrow> sent2 | Some t \<Rightarrow> t),
         decisionEmailError := deliveryError d2,
         decisionEmailPreviewUrl := deliveryPreviewUrl d2,
         decisionEmailMode := deliveryMode d2,
         updatedAt := upd2\<rparr>"
  have f1: "find (\<lambda>item. orderId item = oid) (store[i := ?r1]) = Some ?r1"
    using oid by (intro find_update [OF i]) simp
  have f2: "find (\<lambda>item. orderId item = oid) (store[i := ?r2]) = Some ?r2"
    using oid by (intro find_update [OF i]) simp
  show ?thesis
    using len i f1 f2
    by (simp add: updateDecisionEmailDelivery_found [OF i] updateDecisionEmailDelivery_found [OF i1])
qed


theorem updateDecisionEmailDelivery_last_write_wins_witness:
  "''co_5_7'' \<in> orderId ` set approvedStore
   \<and> isFinalized (approvedStore ! 0)
   \<and> (\<exists>r1 s1 r2 s2.
       updateDecisionEmailDelivery ''t3'' ''t4'' ''co_5_7'' previewDelivery approvedStore = (Some r1, s1)
     \<and> updateDecisionEmailDelivery ''t5'' ''t6'' ''co_5_7'' failedDelivery s1 = (Some r2, s2)
     \<and> updatedAt r1 = ''t4'' \<and> updatedAt r2 = ''t6''
     \<and> decisionEmailStatus r2 = E_FAILED
     \<and> decisionEmailError r2 = Some ''Invalid contractor email address.''
     \<and> decisionEmailPreviewUrl r2 = None
     \<and> decisionEmailMode r2 = None
     \<and> decisionEmailSentAt r2 = Some ''t5''
     \<and> find (\<lambda>item. orderId item = ''co_5_7'') s2 = Some r2)"
  using approvedStore_id approvedStore_facts(2)
    updateDecisionEmailDelivery_last_write_wins [OF approvedStore_id, where ?sent1.0 = "''t3''"
      and ?upd1.0 = "''t4''" and ?d1.0 = previewDelivery and ?sent2.0 = "''t5''"
      and ?upd2.0 = "''t6''" and ?d2.0 = failedDelivery]
  by (auto simp: previewDelivery_def failedDelivery_def)

subsection \<open>Decision e-mail regeneration\<close>

lemma findIndex_map: "findIndex (\<lambda>item. f item = x) xs = findIndex (\<lambda>y. y = x) (map f xs)"
  by (induction xs) simp_all

lemma findIndex_ids:
  "map orderId s' = map orderId s \<Longrightarrow>
   findIndex (\<lambda>item. orderId item = oid) s' = findIndex (\<lambda>item. orderId item = oid) s"
  by (simp add: findIndex_map [of orderId])

lemma buildDecisionEmailContent_depends:
  assumes "input r' = input r" "decisionStatus r' = decisionStatus r"
    "contractorFacingMessage r' = contractorFacingMessage r" "approvedAmount r' = approvedAmount r"
    "denialReasonCode r' = denialReasonCode r" "needsInfoChecklist r' = needsInfoChecklist r"
  shows "buildDecisionEmailContent fmt r' = buildDecisionEmailContent fmt r"
  by (simp add: buildDecisionEmailContent_def assms)

lemma prepareDecisionEmail_content:
  "buildDecisionEmailContent fmt (prepareDecisionEmail fmt r) = buildDecisionEmailContent fmt r"
  by (rule buildDecisionEmailContent_depends) (simp_all add: prepareDecisionEmail_def Let_def)

lemma prepareDecisionEmail_fields:
  "decisionEmailStatus (prepareDecisionEmail fmt r) = E_PENDING"
  "decisionEmailSentAt (prepareDecisionEmail fmt r) = None"
  "decisionEmailError (prepareDecisionEmail fmt r) = None"
  "decisionEmailPreviewUrl (prepareDecisionEmail fmt r) = None"
  "decisionEmailSubject (prepareDecisionEmail fmt r) = Some (subject (buildDecisionEmailContent fmt r))"
  "decisionEmailBody (prepareDecisionEmail fmt r) = Some (body (buildDecisionEmailContent fmt r))"
  "decisionEmailHtml (prepareDecisionEmail fmt r) = Some (html (buildDecisionEmailContent fmt r))"
  "decisionEmailMode (prepareDecisionEmail fmt r) = decisionEmailMode r"
  by (simp_all add: prepareDecisionEmail_def Let_def)

text \<open>
  What a decision on a record that is not finalized does to the e-mail fields: the content
  is the one \<open>buildDecisionEmailContent\<close> derives from the record as stored, the status is
  \<^verbatim>\<open>PENDING\<close>, the time of sending, the error and the preview URL are cleared, and
  \<open>decisionEmailMode\<close> keeps the value it had.
\<close>

lemma applyTeamDecision_regenerates:
  assumes i: "findIndex (\<lambda>item. orderId item = oid) store = Some i"
    and nf: "\<not> isFinalized (store ! i)"
  shows "\<exists>r'. applyTeamDecision fmt now oid decision store = (Some r', store[i := r'])
     \<and> decisionEmailStatus r' = E_PENDING
     \<and> decisionEmailSentAt r' = None
     \<and> decisionEmailError r' = None
     \<and> decisionEmailPreviewUrl r' = None
     \<and> decisionEmailSubject r' = Some (subject (buildDecisionEmailContent fmt r'))
     \<and> decisionEmailBody r' = Some (body (buildDecisionEmailContent fmt r'))
     \<and> decisionEmailHtml r' = Some (html (buildDecisionEmailContent fmt r'))
     \<and> decisionEmailMode r' = decisionEmailMode (store ! i)"
  using i nf
  by (cases decision)
    (simp_all add: applyTeamDecision_def Let_def prepareDecisionEmail_fields
       prepareDecisionEmail_content)


lemma needsInfoStore_facts:
  "length needsInfoStore = 1"
  "\<not> isFinalized (needsInfoStore ! 0)"
  "findIndex (\<lambda>item. orderId item = ''co_5_7'') needsInfoStore = Some 0"
proof -
  show "length needsInfoStore = 1"
    using submittedStore_eq
    by (simp add: needsInfoStore_def applyTeamDecision_def submittedStore_find Let_def
          submittedStore_record(1)) (metis length_Cons list.size(3))
  show "\<not> isFinalized (needsInfoStore ! 0)"
    by (simp add: needsInfoStore_def applyTeamDecision_def Let_def prepareDecisionEmail_def
          submittedStore_def saveSubmission_def mintId_5_7)
  show "findIndex (\<lambda>item. orderId item = ''co_5_7'') needsInfoStore = Some 0"
    unfolding needsInfoStore_def
    by (simp add: findIndex_ids [OF applyTeamDecision_ids] submittedStore_find)
qed

lemma sentStore_facts:
  "findIndex (\<lambda>item. orderId item = ''co_5_7'') sentStore = Some 0"
  "\<not> isFinalized (sentStore ! 0)"
  "decisionEmailMode (sentStore ! 0) = Some Smtp"
  "decisionEmailStatus (sentStore ! 0) = E_SENT"
proof -
  show "findIndex (\<lambda>item. orderId item = ''co_5_7'') sentStore = Some 0"
    unfolding sentStore_def
    by (simp add: findIndex_ids [OF updateDecisionEmailDelivery_ids] needsInfoStore_facts(3))
  show "\<not> isFinalized (sentStore ! 0)" "decisionEmailMode (sentStore ! 0) = Some Smtp"
    "decisionEmailStatus (sentStore ! 0) = E_SENT"
    using needsInfoStore_facts(1,2)
    by (simp_all add: sentStore_def updateDecisionEmailDelivery_found [OF needsInfoStore_facts(3)]
          smtpDelivery_def)
qed

lemma reachable_sentStore: "reachable exampleToFixed2 sentStore"
  unfolding sentStore_def needsInfoStore_def
  by (intro reachable.intros reachable_example_stores(1))

text \<open>
  Claim C3 says that a decision clears all prior delivery metadata, \<open>decisionEmailMode\<close>
  included. \<open>prepareDecisionEmail\<close> resets the status, the time of sending, the error and
  the preview URL and does not assign \<open>decisionEmailMode\<close>: on the reachable store
  \<open>sentStore\<close> (a request for information whose notification was reported sent by SMTP)
  the approval leaves \<open>decisionEmailMode\<close> at \<^verbatim>\<open>smtp\<close>.
\<close>

theorem applyTeamDecision_keeps_decisionEmailMode:
  "reachable exampleToFixed2 sentStore
   \<and> \<not> isFinalized (sentStore ! 0)
   \<and> (\<exists>r'. applyTeamDecision exampleToFixed2 ''t3'' ''co_5_7''
               (APPROVE ''Sam'' 120 ''Checked on site'' (Some ''Approved as quoted'')) sentStore
             = (Some r', sentStore[0 := r'])
          \<and> decisionEmailStatus r' = E_PENDING
          \<and> decisionEmailSentAt r' = None
          \<and> decisionEmailMode r' = Some Smtp)"
  using reachable_sentStore sentStore_facts(2,3)
    applyTeamDecision_regenerates [OF sentStore_facts(1,2), of exampleToFixed2 "''t3''"
      "APPROVE ''Sam'' 120 ''Checked on site'' (Some ''Approved as quoted'')"]
  by auto

subsection \<open>Escaping and the two bodies of the decision e-mail\<close>

lemma filter_replaceAll:
  "filter P rep = [] \<Longrightarrow> filter P (replaceAll c rep s) = filter (\<lambda>x. P x \<and> x \<noteq> c) s"
  by (induction s) (simp_all add: replaceAll_def)

lemma replaceAll_empty: "rep \<noteq> [] \<Longrightarrow> (replaceAll c rep s = []) = (s = [])"
  by (cases s) (simp_all add: replaceAll_def)

lemma escapeHtml_no_markup: "filter isMarkup (escapeHtml s) = []"
proof -
  let ?a = "replaceAll CHR ''&'' ''&amp;'' s"
  let ?b = "replaceAll CHR ''<'' ''&lt;'' ?a"
  let ?c = "replaceAll CHR ''>'' ''&gt;'' ?b"
  let ?d = "replaceAll (CHR 0x22) ''&quot;'' ?c"
  let ?P4 = "\<lambda>x. isMarkup x \<and> x \<noteq> CHR 0x27"
  let ?P3 = "\<lambda>x. ?P4 x \<and> x \<noteq> CHR 0x22"
  let ?P2 = "\<lambda>x. ?P3 x \<and> x \<noteq> CHR ''>''"
  let ?P1 = "\<lambda>x. ?P2 x \<and> x \<noteq> CHR ''<''"
  have "filter isMarkup (escapeHtml s) = filter ?P4 ?d"
    unfolding escapeHtml_def by (rule filter_replaceAll) (simp add: isMarkup_def)
  also have "\<dots> = filter ?P3 ?c"
    by (rule filter_replaceAll) (simp add: isMarkup_def)
  also have "\<dots> = filter ?P2 ?b"
    by (rule filter_replaceAll) (simp add: isMarkup_def)
  also have "\<dots> = filter ?P1 ?a"
    by (rule filter_replaceAll) (simp add: isMarkup_def)
  also have "\<dots> = []"
    by (auto simp: isMarkup_def filter_empty_conv)
  finally show ?thesis .
qed

lemma escapeHtml_markup_free: "c \<in> set (escapeHtml s) \<Longrightarrow> \<not> isMarkup c"
  using escapeHtml_no_markup [of s] by (simp add: filter_empty_conv)

lemma escapeHtml_empty: "(escapeHtml s = []) = (s = [])"
  by (simp add: escapeHtml_def replaceAll_empty)


lemma wrapHtml_markup:
  assumes "filter isMarkup footer' = filter isMarkup footer"
    and "filter isMarkup inner' = filter isMarkup inner"
  shows "filter isMarkup (wrapHtml footer' inner') = filter isMarkup (wrapHtml footer inner)"
  by (simp only: wrapHtml_def filter_append assms)

lemma baseFooter_markup:
  "filter isMarkup (baseFooter p') = filter isMarkup (baseFooter p)"
  by (simp only: baseFooter_def filter_append escapeHtml_no_markup)

lemma messageParagraph_markup:
  assumes "(m' = []) = (m = [])" "filter isMarkup m' = []" "filter isMarkup m = []"
  shows "filter isMarkup (messageParagraph m') = filter isMarkup (messageParagraph m)"
proof (cases "m = []")
  case True
  with assms(1) show ?thesis by (simp only: messageParagraph_def) simp
next
  case False
  with assms(1) have "m' \<noteq> []" by simp
  with False show ?thesis
    by (simp only: messageParagraph_def not_False_eq_True if_True filter_append assms(2,3))
qed

lemma approvedInner_markup:
  assumes "filter isMarkup (messageParagraph m') = filter isMarkup (messageParagraph m)"
  shows "filter isMarkup (approvedInner n' p' accent amount m')
       = filter isMarkup (approvedInner n p accent amount m)"
  by (simp only: approvedInner_def filter_append escapeHtml_no_markup assms)

lemma deniedInner_markup:
  assumes "filter isMarkup (messageParagraph m') = filter isMarkup (messageParagraph m)"
  shows "filter isMarkup (deniedInner n' p' accent reason' m')
       = filter isMarkup (deniedInner n p accent reason m)"
  by (simp only: deniedInner_def filter_append escapeHtml_no_markup assms)

lemma needsInfoInner_markup:
  assumes "filter isMarkup (messageParagraph m') = filter isMarkup (messageParagraph m)"
    and "filter isMarkup l' = filter isMarkup l"
  shows "filter isMarkup (needsInfoInner n' p' accent l' m')
       = filter isMarkup (needsInfoInner n p accent l m)"
  by (simp only: needsInfoInner_def filter_append escapeHtml_no_markup assms)

lemma join_empty_sep: "join [] xs = concat xs"
  by (induction "[] :: string" xs rule: join.induct) simp_all

lemma listItems_markup:
  "length items' = length items \<Longrightarrow>
   filter isMarkup (concat (map listItemHtml items'))
     = filter isMarkup (concat (map listItemHtml items))"
proof (induction items' items rule: list_induct2)
  case Nil
  show ?case by simp
next
  case (Cons x xs y ys)
  have "filter isMarkup (listItemHtml x) = filter isMarkup (listItemHtml y)"
    by (simp only: listItemHtml_def filter_append escapeHtml_no_markup)
  with Cons.IH show ?case by simp
qed

lemma listHtmlOf_markup:
  assumes "length items' = length items"
  shows "filter isMarkup (listHtmlOf items') = filter isMarkup (listHtmlOf items)"
proof (cases "length items > 0")
  case True
  with assms have "length items' > 0" by simp
  with True show ?thesis
    by (simp only: listHtmlOf_def if_True filter_append join_empty_sep listItems_markup [OF assms])
next
  case False
  with assms have "\<not> length items' > 0" by simp
  with False show ?thesis
    by (simp only: listHtmlOf_def if_False)
qed

lemma messageBlock_markup:
  assumes "hasMessage r' = hasMessage r"
  shows "filter isMarkup
           (messageParagraph
             (escapeHtml (case contractorFacingMessage r' of None \<Rightarrow> [] | Some m \<Rightarrow> orElse m [])))
       = filter isMarkup
           (messageParagraph
             (escapeHtml (case contractorFacingMessage r of None \<Rightarrow> [] | Some m \<Rightarrow> orElse m [])))"
proof (rule messageParagraph_markup)
  show "(escapeHtml (case contractorFacingMessage r' of None \<Rightarrow> [] | Some m \<Rightarrow> orElse m []) = [])
      = (escapeHtml (case contractorFacingMessage r of None \<Rightarrow> [] | Some m \<Rightarrow> orElse m []) = [])"
    using assms
    by (simp add: escapeHtml_empty hasMessage_def orElse_def split: option.splits)
qed (rule escapeHtml_no_markup)+

lemma html_markup_fixed:
  assumes "decisionStatus r' = decisionStatus r" "approvedAmount r' = approvedAmount r"
    "length (needsInfoChecklist r') = length (needsInfoChecklist r)"
    "hasMessage r' = hasMessage r"
  shows "filter isMarkup (html (buildDecisionEmailContent fmt r'))
       = filter isMarkup (html (buildDecisionEmailContent fmt r))"
proof -
  note m = messageBlock_markup [OF assms(4)]
  show ?thesis
  proof (cases "decisionStatus r")
    case D_APPROVED
    with assms(1,2) show ?thesis
      by (simp add: buildDecisionEmailContent_def Let_def
            wrapHtml_markup [OF baseFooter_markup approvedInner_markup [OF m]])
  next
    case D_DENIED
    with assms(1) show ?thesis
      by (simp add: buildDecisionEmailContent_def Let_def
            wrapHtml_markup [OF baseFooter_markup deniedInner_markup [OF m]])
  next
    case D_PENDING
    with assms(1) show ?thesis
      by (simp add: buildDecisionEmailContent_def Let_def
            wrapHtml_markup [OF baseFooter_markup
              needsInfoInner_markup [OF m listHtmlOf_markup [OF assms(3)]]])
  next
    case D_NEEDS_INFO
    with assms(1) show ?thesis
      by (simp add: buildDecisionEmailContent_def Let_def
            wrapHtml_markup [OF baseFooter_markup
              needsInfoInner_markup [OF m listHtmlOf_markup [OF assms(3)]]])
  qed
qed


lemma sub_here: "sublist x (x @ b)"
  by (rule sublist_append_rightI)

lemma sub_skip: "sublist x b \<Longrightarrow> sublist x (a @ b)"
  by (auto simp: sublist_def) (metis append.assoc)

lemma sub_cons: "sublist x b \<Longrightarrow> sublist x (c # b)"
  using sub_skip [of x b "[c]"] by simp

lemma join_member:
  "line \<in> set items \<Longrightarrow> sublist line (join sep (map (\<lambda>l. p @ l) items))"
proof (induction items rule: induct_list012)
  case 1
  then show ?case by simp
next
  case (2 x)
  then show ?case by (simp add: sub_skip sub_here)
next
  case (3 x y zs)
  show ?case
  proof (cases "line = x")
    case True
    then show ?thesis
      using sub_skip [OF sub_here, of x p "sep @ join sep (map (\<lambda>l. p @ l) (y # zs))"]
      by simp
  next
    case False
    with 3 have "sublist line (join sep (map (\<lambda>l. p @ l) (y # zs)))" by simp
    then have "sublist line ((p @ x) @ sep @ join sep (map (\<lambda>l. p @ l) (y # zs)))"
      by (intro sub_skip)
    then show ?thesis by simp
  qed
qed

lemma messageTail_embeds: "m = Some msg \<Longrightarrow> sublist msg (messageTail m @ rest)"
  by (cases "msg = []") (simp_all add: messageTail_def sub_cons sub_here)

lemma body_embeds_name:
  "sublist (orElse (contractorName (input r)) ''Contractor'') (body (buildDecisionEmailContent fmt r))"
  by (cases "decisionStatus r";
      simp add: buildDecisionEmailContent_def Let_def del: append.simps append_assoc;
      intro sub_here sub_skip)

lemma body_embeds_project:
  "sublist (orElse (projectId (input r)) ''your project'') (body (buildDecisionEmailContent fmt r))"
  by (cases "decisionStatus r";
      simp add: buildDecisionEmailContent_def Let_def del: append.simps append_assoc;
      intro conjI impI sub_here sub_skip)

lemma body_embeds_message:
  "contractorFacingMessage r = Some msg \<Longrightarrow> sublist msg (body (buildDecisionEmailContent fmt r))"
  by (cases "decisionStatus r";
      simp add: buildDecisionEmailContent_def Let_def del: append.simps append_assoc;
      intro conjI impI messageTail_embeds sub_skip; simp)

lemma body_embeds_reason:
  "decisionStatus r = D_DENIED \<Longrightarrow> denialReasonCode r = Some c
     \<Longrightarrow> sublist (denialReasonCodeString c) (body (buildDecisionEmailContent fmt r))"
  by (simp add: buildDecisionEmailContent_def Let_def del: append.simps append_assoc;
      intro sub_here sub_skip)

lemma body_embeds_checklist:
  assumes "decisionStatus r \<noteq> D_APPROVED" "decisionStatus r \<noteq> D_DENIED"
    and "line \<in> set (needsInfoChecklist r)"
  shows "sublist line (body (buildDecisionEmailContent fmt r))"
proof -
  from assms(3) have ne: "needsInfoChecklist r \<noteq> []" by auto
  have j: "sublist line (join ''\<newline>'' (map (\<lambda>l. ''- '' @ l) (needsInfoChecklist r)) @ rest)" for rest
    using sublist_order.order_trans [OF join_member [OF assms(3)] sub_here] .
  from assms(1,2) ne show ?thesis
    by (simp add: buildDecisionEmailContent_def Let_def del: append.simps append_assoc;
        intro j sub_skip)
qed


lemma replaceAll_Cons:
  "replaceAll c rep (x # xs) = (if x = c then rep else [x]) @ replaceAll c rep xs"
  by (simp add: replaceAll_def)

lemma replaceAll_append:
  "replaceAll c rep (xs @ ys) = replaceAll c rep xs @ replaceAll c rep ys"
  by (simp add: replaceAll_def)

lemma escapeHtml_Cons: "escapeHtml (x # xs) = escapeChar x @ escapeHtml xs"
  by (simp add: escapeHtml_def escapeChar_def replaceAll_Cons replaceAll_append)
    (simp add: replaceAll_def)

lemma escapeHtml_chars: "escapeHtml s = concat (map escapeChar s)"
proof (induction s)
  case Nil
  show ?case by (simp add: escapeHtml_def replaceAll_def)
next
  case (Cons x xs)
  then show ?case by (simp add: escapeHtml_Cons)
qed

lemma sub_trans: "sublist x y \<Longrightarrow> sublist y z \<Longrightarrow> sublist x z"
  by (rule sublist_order.order_trans)

lemma sub_concat: "x \<in> set xs \<Longrightarrow> sublist x (concat xs)"
proof (induction xs)
  case Nil
  then show ?case by simp
next
  case (Cons a xs)
  then show ?case by (auto intro: sub_here sub_skip)
qed

lemma wrapHtml_embeds:
  "sublist footer (wrapHtml footer inner)" "sublist inner (wrapHtml footer inner)"
  unfolding wrapHtml_def by (intro sub_here sub_skip)+

lemma baseFooter_embeds: "sublist (escapeHtml p) (baseFooter p)"
  unfolding baseFooter_def by (intro sub_here sub_skip)

lemma messageParagraph_embeds: "sublist m (messageParagraph m)"
proof (cases "m = []")
  case True
  then show ?thesis by simp
next
  case False
  then show ?thesis
    by (simp only: messageParagraph_def not_False_eq_True if_True) (intro sub_here sub_skip)
qed

lemma approvedInner_embeds:
  "sublist (escapeHtml n) (approvedInner n p accent amount m)"
  "sublist (escapeHtml p) (approvedInner n p accent amount m)"
  "sublist amount (approvedInner n p accent amount m)"
  "sublist (messageParagraph m) (approvedInner n p accent amount m)"
  unfolding approvedInner_def by (intro sub_here sub_skip)+

lemma deniedInner_embeds:
  "sublist (escapeHtml n) (deniedInner n p accent reason m)"
  "sublist (escapeHtml p) (deniedInner n p accent reason m)"
  "sublist (escapeHtml reason) (deniedInner n p accent reason m)"
  "sublist (messageParagraph m) (deniedInner n p accent reason m)"
  unfolding deniedInner_def by (intro sub_here sub_skip)+

lemma needsInfoInner_embeds:
  "sublist (escapeHtml n) (needsInfoInner n p accent l m)"
  "sublist (escapeHtml p) (needsInfoInner n p accent l m)"
  "sublist l (needsInfoInner n p accent l m)"
  "sublist (messageParagraph m) (needsInfoInner n p accent l m)"
  unfolding needsInfoInner_def by (intro sub_here sub_skip)+

lemma listHtmlOf_embeds:
  assumes "line \<in> set items"
  shows "sublist (escapeHtml line) (listHtmlOf items)"
proof -
  from assms have ne: "length items > 0" by (cases items) simp_all
  have "sublist (escapeHtml line) (listItemHtml line)"
    unfolding listItemHtml_def by (intro sub_here sub_skip)
  moreover from assms have "sublist (listItemHtml line) (concat (map listItemHtml items))"
    by (intro sub_concat) simp
  ultimately have "sublist (escapeHtml line) (join [] (map listItemHtml items))"
    unfolding join_empty_sep by (rule sub_trans)
  moreover have "sublist (join [] (map listItemHtml items)) (listHtmlOf items)"
    using ne by (simp only: listHtmlOf_def if_True) (intro sub_here sub_skip)
  ultimately show ?thesis by (rule sub_trans)
qed

lemma html_shape:
  "html (buildDecisionEmailContent fmt r) =
     wrapHtml (baseFooter (orElse (projectId (input r)) ''your project''))
       (if decisionStatus r = D_APPROVED then
          approvedInner (orElse (contractorName (input r)) ''Contractor'')
            (orElse (projectId (input r)) ''your project'') ''#166534''
            (case approvedAmount r of None \<Rightarrow> ''0.00'' | Some a \<Rightarrow> fmt a)
            (escapeHtml (case contractorFacingMessage r of None \<Rightarrow> [] | Some m \<Rightarrow> m))
        else if decisionStatus r = D_DENIED then
          deniedInner (orElse (contractorName (input r)) ''Contractor'')
            (orElse (projectId (input r)) ''your project'') ''#be123c''
            (case denialReasonCode r of None \<Rightarrow> ''N/A'' | Some c \<Rightarrow> denialReasonCodeString c)
            (escapeHtml (case contractorFacingMessage r of None \<Rightarrow> [] | Some m \<Rightarrow> m))
        else
          needsInfoInner (orElse (contractorName (input r)) ''Contractor'')
            (orElse (projectId (input r)) ''your project'') ''#0f4f8b''
            (listHtmlOf (needsInfoChecklist r))
            (escapeHtml (case contractorFacingMessage r of None \<Rightarrow> [] | Some m \<Rightarrow> m)))"
  by (simp add: buildDecisionEmailContent_def Let_def orElse_def split: option.splits)

lemma html_embeds_inner:
  assumes "sublist x
       (if decisionStatus r = D_APPROVED then
          approvedInner (orElse (contractorName (input r)) ''Contractor'')
            (orElse (projectId (input r)) ''your project'') ''#166534''
            (case approvedAmount r of None \<Rightarrow> ''0.00'' | Some a \<Rightarrow> fmt a)
            (escapeHtml (case contractorFacingMessage r of None \<Rightarrow> [] | Some m \<Rightarrow> m))
        else if decisionStatus r = D_DENIED then
          deniedInner (orElse (contractorName (input r)) ''Contractor'')
            (orElse (projectId (input r)) ''your project'') ''#be123c''
            (case denialReasonCode r of None \<Rightarrow> ''N/A'' | Some c \<Rightarrow> denialReasonCodeString c)
            (escapeHtml (case contractorFacingMessage r of None \<Rightarrow> [] | Some m \<Rightarrow> m))
        else
          needsInfoInner (orElse (contractorName (input r)) ''Contractor'')
            (orElse (projectId (input r)) ''your project'') ''#0f4f8b''
            (listHtmlOf (needsInfoChecklist r))
            (escapeHtml (case contractorFacingMessage r of None \<Rightarrow> [] | Some m \<Rightarrow> m)))"
  shows "sublist x (html (buildDecisionEmailContent fmt r))"
  unfolding html_shape using assms wrapHtml_embeds(2) by (rule sub_trans)

lemma html_embeds_name:
  "sublist (escapeHtml (orElse (contractorName (input r)) ''Contractor''))
     (html (buildDecisionEmailContent fmt r))"
  by (rule html_embeds_inner)
    (simp add: approvedInner_embeds deniedInner_embeds needsInfoInner_embeds)

lemma html_embeds_project:
  "sublist (escapeHtml (orElse (projectId (input r)) ''your project''))
     (html (buildDecisionEmailContent fmt r))"
  by (rule html_embeds_inner)
    (simp add: approvedInner_embeds deniedInner_embeds needsInfoInner_embeds)

lemma html_embeds_message:
  assumes "contractorFacingMessage r = Some msg"
  shows "sublist (escapeHtml msg) (html (buildDecisionEmailContent fmt r))"
proof (rule html_embeds_inner)
  note m = messageParagraph_embeds [of "escapeHtml msg"]
  show "sublist (escapeHtml msg)
       (if decisionStatus r = D_APPROVED then
          approvedInner (orElse (contractorName (input r)) ''Contractor'')
            (orElse (projectId (input r)) ''your project'') ''#166534''
            (case approvedAmount r of None \<Rightarrow> ''0.00'' | Some a \<Rightarrow> fmt a)
            (escapeHtml (case contractorFacingMessage r of None \<Rightarrow> [] | Some m \<Rightarrow> m))
        else if decisionStatus r = D_DENIED then
          deniedInner (orElse (contractorName (input r)) ''Contractor'')
            (orElse (projectId (input r)) ''your project'') ''#be123c''
            (case denialReasonCode r of None \<Rightarrow> ''N/A'' | Some c \<Rightarrow> denialReasonCodeString c)
            (escapeHtml (case contractorFacingMessage r of None \<Rightarrow> [] | Some m \<Rightarrow> m))
        else
          needsInfoInner (orElse (contractorName (input r)) ''Contractor'')
            (orElse (projectId (input r)) ''your project'') ''#0f4f8b''
            (listHtmlOf (needsInfoChecklist r))
            (escapeHtml (case contractorFacingMessage r of None \<Rightarrow> [] | Some m \<Rightarrow> m)))"
    using assms
      sub_trans [OF m approvedInner_embeds(4)] sub_trans [OF m deniedInner_embeds(4)]
      sub_trans [OF m needsInfoInner_embeds(4)]
    by simp
qed

lemma html_embeds_reason:
  assumes "decisionStatus r = D_DENIED" "denialReasonCode r = Some reason"
  shows "sublist (escapeHtml (denialReasonCodeString reason)) (html (buildDecisionEmailContent fmt r))"
  by (rule html_embeds_inner) (simp add: assms deniedInner_embeds)

lemma html_embeds_amount:
  assumes "decisionStatus r = D_APPROVED" "approvedAmount r = Some a"
  shows "sublist (fmt a) (html (buildDecisionEmailContent fmt r))"
  by (rule html_embeds_inner) (simp add: assms approvedInner_embeds)

lemma html_embeds_checklist:
  assumes "decisionStatus r \<noteq> D_APPROVED" "decisionStatus r \<noteq> D_DENIED"
    and "line \<in> set (needsInfoChecklist r)"
  shows "sublist (escapeHtml line) (html (buildDecisionEmailContent fmt r))"
  by (rule html_embeds_inner)
    (simp add: assms(1,2) sub_trans [OF listHtmlOf_embeds [OF assms(3)] needsInfoInner_embeds(3)])

text \<open>
  Claim C9. \<open>escapeHtml\<close> replaces each \<^verbatim>\<open>&\<close>, \<^verbatim>\<open><\<close>, \<^verbatim>\<open>>\<close>, double quote and
  apostrophe by its entity and keeps every other character, so its result holds none of
  \<^verbatim>\<open><\<close>, \<^verbatim>\<open>>\<close>, the double quote and the apostrophe. The HTML body holds the
  escaped contractor name and the escaped project label, the escaped contractor-facing
  message when there is one, the escaped denial reason code in a denial and each escaped
  needs-info line in a request for information, and it takes these texts through
  \<open>escapeHtml\<close> only: its markup characters are those of the template, the same for any
  two records with the same decision status, amount, number of needs-info lines and
  presence of a message, whatever these texts are. The plain-text body holds each of them
  as it is.
\<close>

theorem escapeHtml_and_email_bodies:
  "escapeHtml s = concat (map escapeChar s)
   \<and> (\<forall>c\<in>set (escapeHtml s). c \<noteq> CHR ''<'' \<and> c \<noteq> CHR ''>'' \<and> c \<noteq> CHR 0x22 \<and> c \<noteq> CHR 0x27)
   \<and> sublist (escapeHtml (orElse (contractorName (input r)) ''Contractor''))
        (html (buildDecisionEmailContent fmt r))
   \<and> sublist (escapeHtml (orElse (projectId (input r)) ''your project''))
        (html (buildDecisionEmailContent fmt r))
   \<and> (\<forall>msg. contractorFacingMessage r = Some msg
         \<longrightarrow> sublist (escapeHtml msg) (html (buildDecisionEmailContent fmt r)))
   \<and> (\<forall>reason. decisionStatus r = D_DENIED \<and> denialReasonCode r = Some reason
         \<longrightarrow> sublist (escapeHtml (denialReasonCodeString reason))
               (html (buildDecisionEmailContent fmt r)))
   \<and> (decisionStatus r \<noteq> D_APPROVED \<and> decisionStatus r \<noteq> D_DENIED
         \<longrightarrow> (\<forall>line\<in>set (needsInfoChecklist r).
                sublist (escapeHtml line) (html (buildDecisionEmailContent fmt r))))
   \<and> (decisionStatus r' = decisionStatus r \<and> approvedAmount r' = approvedAmount r
        \<and> length (needsInfoChecklist r') = length (needsInfoChecklist r)
        \<and> hasMessage r' = hasMessage r
      \<longrightarrow> filter isMarkup (html (buildDecisionEmailContent fmt r'))
          = filter isMarkup (html (buildDecisionEmailContent fmt r)))
   \<and> sublist (orElse (contractorName (input r)) ''Contractor'') (body (buildDecisionEmailContent fmt r))
   \<and> sublist (orElse (projectId (input r)) ''your project'') (body (buildDecisionEmailContent fmt r))
   \<and> (\<forall>msg. contractorFacingMessage r = Some msg
         \<longrightarrow> sublist msg (body (buildDecisionEmailContent fmt r)))
   \<and> (\<forall>reason. decisionStatus r = D_DENIED \<and> denialReasonCode r = Some reason
         \<longrightarrow> sublist (denialReasonCodeString reason) (body (buildDecisionEmailContent fmt r)))
   \<and> (decisionStatus r \<noteq> D_APPROVED \<and> decisionStatus r \<noteq> D_DENIED
         \<longrightarrow> (\<forall>line\<in>set (needsInfoChecklist r). sublist line (body (buildDecisionEmailContent fmt r))))"
proof (intro conjI ballI allI impI)
  show "escapeHtml s = concat (map escapeChar s)"
    by (rule escapeHtml_chars)
next
  fix c assume "c \<in> set (escapeHtml s)"
  from escapeHtml_markup_free [OF this]
  show "c \<noteq> CHR ''<''" "c \<noteq> CHR ''>''" "c \<noteq> CHR 0x22" "c \<noteq> CHR 0x27"
    by (simp_all add: isMarkup_def)
next
  show "sublist (escapeHtml (orElse (contractorName (input r)) ''Contractor''))
        (html (buildDecisionEmailContent fmt r))"
    by (rule html_embeds_name)
next
  show "sublist (escapeHtml (orElse (projectId (input r)) ''your project''))
        (html (buildDecisionEmailContent fmt r))"
    by (rule html_embeds_project)
next
  fix msg assume "contractorFacingMessage r = Some msg"
  then show "sublist (escapeHtml msg) (html (buildDecisionEmailContent fmt r))"
    by (rule html_embeds_message)
next
  fix reason assume "decisionStatus r = D_DENIED \<and> denialReasonCode r = Some reason"
  then show "sublist (escapeHtml (denialReasonCodeString reason))
               (html (buildDecisionEmailContent fmt r))"
    by (intro html_embeds_reason) simp_all
next
  fix line
  assume "decisionStatus r \<noteq> D_APPROVED \<and> decisionStatus r \<noteq> D_DENIED"
    and "line \<in> set (needsInfoChecklist r)"
  then show "sublist (escapeHtml line) (html (buildDecisionEmailContent fmt r))"
    by (intro html_embeds_checklist) simp_all
next
  assume "decisionStatus r' = decisionStatus r \<and> approvedAmount r' = approvedAmount r
        \<and> length (needsInfoChecklist r') = length (needsInfoChecklist r)
        \<and> hasMessage r' = hasMessage r"
  then show "filter isMarkup (html (buildDecisionEmailContent fmt r'))
          = filter isMarkup (html (buildDecisionEmailContent fmt r))"
    by (intro html_markup_fixed) simp_all
next
  show "sublist (orElse (contractorName (input r)) ''Contractor'') (body (buildDecisionEmailContent fmt r))"
    by (rule body_embeds_name)
next
  show "sublist (orElse (projectId (input r)) ''your project'') (body (buildDecisionEmailContent fmt r))"
    by (rule body_embeds_project)
next
  fix msg assume "contractorFacingMessage r = Some msg"
  then show "sublist msg (body (buildDecisionEmailContent fmt r))"
    by (rule body_embeds_message)
next
  fix reason assume "decisionStatus r = D_DENIED \<and> denialReasonCode r = Some reason"
  then show "sublist (denialReasonCodeString reason) (body (buildDecisionEmailContent fmt r))"
    by (intro body_embeds_reason) simp_all
next
  fix line
  assume "decisionStatus r \<noteq> D_APPROVED \<and> decisionStatus r \<noteq> D_DENIED"
    and "line \<in> set (needsInfoChecklist r)"
  then show "sublist line (body (buildDecisionEmailContent fmt r))"
    by (intro body_embeds_checklist) simp_all
qed

lemma needsInfoRecord:
  "input (needsInfoStore ! 0) = exampleInput"
  "decisionStatus (needsInfoStore ! 0) = D_NEEDS_INFO"
  "approvedAmount (needsInfoStore ! 0) = None"
  "contractorFacingMessage (needsInfoStore ! 0) = Some ''Please add <two> photos''"
  "needsInfoChecklist (needsInfoStore ! 0) = [''Photo of the roof'', ''Invoice & receipt'']"
  by (simp_all add: needsInfoStore_def applyTeamDecision_def Let_def prepareDecisionEmail_def
        submittedStore_def saveSubmission_def mintId_5_7)

lemma markupRecord_fields:
  "input markupRecord = exampleInput\<lparr>projectId := ''<h1>P</h1>'',
             contractorName := ''<script>alert(1)</script>''\<rparr>"
  "decisionStatus markupRecord = D_NEEDS_INFO"
  "approvedAmount markupRecord = None"
  "contractorFacingMessage markupRecord = Some ''<a href=\"x\">here</a>''"
  "needsInfoChecklist markupRecord = [''<b>one</b>'', ''<i>two</i>'']"
  by (simp_all add: markupRecord_def needsInfoRecord)

lemma escapeHtml_examples:
  "escapeHtml ''<script>alert(1)</script>'' = ''&lt;script&gt;alert(1)&lt;/script&gt;''"
  "escapeHtml ''<h1>P</h1>'' = ''&lt;h1&gt;P&lt;/h1&gt;''"
  "escapeHtml ''<a href=\"x\">here</a>'' = ''&lt;a href=&quot;x&quot;&gt;here&lt;/a&gt;''"
  "escapeHtml ''<i>two</i>'' = ''&lt;i&gt;two&lt;/i&gt;''"
  by (simp_all add: escapeHtml_chars escapeChar_def)

theorem escapeHtml_and_email_bodies_witness:
  "escapeHtml ''Tom & \"Dana\" <Roofing>'' = ''Tom &amp; &quot;Dana&quot; &lt;Roofing&gt;''
   \<and> CHR ''<'' \<in> set ''Dana <Roofing>'' \<and> CHR ''<'' \<notin> set (escapeHtml ''Dana <Roofing>'')
   \<and> sublist ''&lt;script&gt;alert(1)&lt;/script&gt;''
        (html (buildDecisionEmailContent exampleToFixed2 markupRecord))
   \<and> sublist ''&lt;h1&gt;P&lt;/h1&gt;'' (html (buildDecisionEmailContent exampleToFixed2 markupRecord))
   \<and> sublist ''&lt;a href=&quot;x&quot;&gt;here&lt;/a&gt;''
        (html (buildDecisionEmailContent exampleToFixed2 markupRecord))
   \<and> sublist ''&lt;i&gt;two&lt;/i&gt;'' (html (buildDecisionEmailContent exampleToFixed2 markupRecord))
   \<and> decisionStatus markupRecord = decisionStatus (needsInfoStore ! 0)
   \<and> filter isMarkup (html (buildDecisionEmailContent exampleToFixed2 markupRecord))
     = filter isMarkup (html (buildDecisionEmailContent exampleToFixed2 (needsInfoStore ! 0)))
   \<and> sublist ''<script>alert(1)</script>'' (body (buildDecisionEmailContent exampleToFixed2 markupRecord))
   \<and> sublist ''<h1>P</h1>'' (body (buildDecisionEmailContent exampleToFixed2 markupRecord))
   \<and> sublist ''<a href=\"x\">here</a>'' (body (buildDecisionEmailContent exampleToFixed2 markupRecord))
   \<and> sublist ''<i>two</i>'' (body (buildDecisionEmailContent exampleToFixed2 markupRecord))"
proof -
  note m = markupRecord_fields
  have h: "hasMessage markupRecord = hasMessage (needsInfoStore ! 0)"
    by (simp add: hasMessage_def m needsInfoRecord)
  have x: "escapeHtml ''Tom & \"Dana\" <Roofing>'' = ''Tom &amp; &quot;Dana&quot; &lt;Roofing&gt;''"
    using escapeHtml_and_email_bodies [of "''Tom & \"Dana\" <Roofing>''", THEN conjunct1]
    by (simp add: escapeChar_def)
  have a: "CHR ''<'' \<notin> set (escapeHtml ''Dana <Roofing>'')"
    using escapeHtml_and_email_bodies [of "''Dana <Roofing>''", THEN conjunct2, THEN conjunct1]
    by blast
  note t = escapeHtml_and_email_bodies [of "[]" markupRecord exampleToFixed2 markupRecord,
      THEN conjunct2, THEN conjunct2]
  have f: "sublist ''&lt;script&gt;alert(1)&lt;/script&gt;''
        (html (buildDecisionEmailContent exampleToFixed2 markupRecord))"
    "sublist ''&lt;h1&gt;P&lt;/h1&gt;'' (html (buildDecisionEmailContent exampleToFixed2 markupRecord))"
    using t [THEN conjunct1] t [THEN conjunct2, THEN conjunct1]
    by (simp_all only: m orElse_def escapeHtml_examples [symmetric])
      (simp_all add: exampleInput_def)
  have g: "sublist ''&lt;a href=&quot;x&quot;&gt;here&lt;/a&gt;''
        (html (buildDecisionEmailContent exampleToFixed2 markupRecord))"
    using t [THEN conjunct2, THEN conjunct2, THEN conjunct1] m(4)
    by (simp only: escapeHtml_examples [symmetric])
  have i: "sublist ''&lt;i&gt;two&lt;/i&gt;'' (html (buildDecisionEmailContent exampleToFixed2 markupRecord))"
    using t [THEN conjunct2, THEN conjunct2, THEN conjunct2, THEN conjunct2, THEN conjunct1] m(2,5)
    by (simp only: escapeHtml_examples [symmetric]) simp
  note u = t [THEN conjunct2, THEN conjunct2, THEN conjunct2, THEN conjunct2, THEN conjunct2]
  have b: "filter isMarkup (html (buildDecisionEmailContent exampleToFixed2 markupRecord))
     = filter isMarkup (html (buildDecisionEmailContent exampleToFixed2 (needsInfoStore ! 0)))"
    using escapeHtml_and_email_bodies [of "[]" "needsInfoStore ! 0" exampleToFixed2 markupRecord] h
    by (simp add: m needsInfoRecord)
  have c: "sublist ''<script>alert(1)</script>'' (body (buildDecisionEmailContent exampleToFixed2 markupRecord))"
    "sublist ''<h1>P</h1>'' (body (buildDecisionEmailContent exampleToFixed2 markupRecord))"
    using u by (simp_all add: m orElse_def)
  have d: "sublist ''<a href=\"x\">here</a>'' (body (buildDecisionEmailContent exampleToFixed2 markupRecord))"
    using u m(4) by blast
  have e: "sublist ''<i>two</i>'' (body (buildDecisionEmailContent exampleToFixed2 markupRecord))"
    using u m(2,5) by simp
  from x a f g i b c d e show ?thesis
    by (simp add: m needsInfoRecord)
qed

subsection \<open>Identifiers\<close>

lemma digitChar_inj: "a < 10 \<Longrightarrow> b < 10 \<Longrightarrow> digitChar a = digitChar b \<Longrightarrow> a = b"
proof -
  assume a: "a < 10" and b: "b < 10" and eq: "digitChar a = digitChar b"
  have d: "distinct ''0123456789''" by simp
  have l: "length ''0123456789'' = 10" by simp
  from eq have "''0123456789'' ! a = ''0123456789'' ! b" by (simp only: digitChar_def)
  with d a b l show "a = b" by (simp only: nth_eq_iff_index_eq)
qed

lemma digitChar_digit: "d < 10 \<Longrightarrow> digitChar d \<in> set ''0123456789''"
  unfolding digitChar_def by (rule nth_mem) simp

lemma showNat_digits: "set (showNat n) \<subseteq> set ''0123456789''"
proof (induction n rule: showNat.induct)
  case (1 n)
  show ?case
  proof (cases "n < 10")
    case True
    with digitChar_digit [of n] show ?thesis by (subst showNat.simps) simp
  next
    case False
    have "n mod 10 < 10" by simp
    from digitChar_digit [OF this] 1 [OF False] False show ?thesis
      by (subst showNat.simps) simp
  qed
qed

lemma showNat_length: "(length (showNat n) = 1) = (n < 10)"
proof (cases "n < 10")
  case True
  then show ?thesis by (subst showNat.simps) simp
next
  case False
  have "showNat (n div 10) \<noteq> []"
    by (subst showNat.simps) simp
  with False show ?thesis by (subst showNat.simps) simp
qed

lemma showNat_inj: "showNat m = showNat n \<Longrightarrow> m = n"
proof (induction m arbitrary: n rule: showNat.induct)
  case (1 m)
  show ?case
  proof (cases "m < 10")
    case True
    with showNat_length [of m] "1.prems" showNat_length [of n] have n: "n < 10" by simp
    from True n "1.prems" have "digitChar m = digitChar n"
      by (simp add: showNat.simps [of m] showNat.simps [of n])
    with True n show ?thesis by (rule digitChar_inj)
  next
    case False
    with showNat_length [of m] "1.prems" showNat_length [of n] have n: "\<not> n < 10" by simp
    from False n "1.prems"
    have eq: "showNat (m div 10) @ [digitChar (m mod 10)] = showNat (n div 10) @ [digitChar (n mod 10)]"
      by (simp add: showNat.simps [of m] showNat.simps [of n])
    then have "showNat (m div 10) = showNat (n div 10)" "digitChar (m mod 10) = digitChar (n mod 10)"
      by simp_all
    with "1.IH" [OF False] have "m div 10 = n div 10" "m mod 10 = n mod 10"
      by (auto intro: digitChar_inj)
    then show ?thesis by (metis div_mult_mod_eq)
  qed
qed

lemma showNat_nonempty: "showNat n \<noteq> []"
  by (subst showNat.simps) simp

lemma showNat_no_minus: "hd (showNat n) \<noteq> CHR ''-''"
proof -
  have "hd (showNat n) \<in> set (showNat n)" using showNat_nonempty by simp
  with showNat_digits [of n] show ?thesis by auto
qed

lemma showInt_inj: "showInt a = showInt b \<Longrightarrow> a = b"
proof -
  assume eq: "showInt a = showInt b"
  consider "a < 0" "b < 0" | "a < 0" "\<not> b < 0" | "\<not> a < 0" "b < 0" | "\<not> a < 0" "\<not> b < 0"
    by blast
  then show "a = b"
  proof cases
    case 1
    with eq have "showNat (nat (- a)) = showNat (nat (- b))" by (simp add: showInt_def)
    from showNat_inj [OF this] 1 show ?thesis by simp
  next
    case 2
    with eq have "showNat (nat b) = CHR ''-'' # showNat (nat (- a))"
      by (simp add: showInt_def)
    then have "hd (showNat (nat b)) = CHR ''-''" by simp
    with showNat_no_minus [of "nat b"] show ?thesis by simp
  next
    case 3
    with eq have "showNat (nat a) = CHR ''-'' # showNat (nat (- b))"
      by (simp add: showInt_def)
    then have "hd (showNat (nat a)) = CHR ''-''" by simp
    with showNat_no_minus [of "nat a"] show ?thesis by simp
  next
    case 4
    with eq have "showNat (nat a) = showNat (nat b)" by (simp add: showInt_def)
    from showNat_inj [OF this] 4 show ?thesis by simp
  qed
qed

lemma showInt_no_underscore: "CHR ''_'' \<notin> set (showInt a)"
  using showNat_digits [of "nat a"] showNat_digits [of "nat (- a)"]
  by (auto simp: showInt_def)

lemma split_unique:
  "xs @ c # ys = xs' @ c # ys' \<Longrightarrow> c \<notin> set xs \<Longrightarrow> c \<notin> set xs' \<Longrightarrow> xs = xs' \<and> ys = ys'"
proof (induction xs arbitrary: xs')
  case Nil
  then show ?case by (cases xs') auto
next
  case (Cons x xs)
  then show ?case by (cases xs') auto
qed

lemma mintId_inj: "mintId a b = mintId a' b' \<Longrightarrow> a = a' \<and> b = b'"
proof -
  assume "mintId a b = mintId a' b'"
  then have "showInt a @ CHR ''_'' # showNat b = showInt a' @ CHR ''_'' # showNat b'"
    by (simp add: mintId_def)
  from split_unique [OF this showInt_no_underscore showInt_no_underscore]
  show ?thesis by (auto dest: showInt_inj showNat_inj)
qed


subsection \<open>Submission\<close>

lemma submitPOST_blocked:
  assumes "combinedReasons dateGetTime lateNowMs data \<noteq> []"
  shows "submitPOST dateGetTime lateNowMs nowMs rnd c u sub (Some data) store =
     (SubmitBlocked422
        (fst (saveBlocked nowMs rnd c u data (combinedReasons dateGetTime lateNowMs data) store))
        (combinedReasons dateGetTime lateNowMs data),
      snd (saveBlocked nowMs rnd c u data (combinedReasons dateGetTime lateNowMs data) store))"
  using assms
  by (simp add: submitPOST_def combinedReasons_def Let_def split: prod.splits)

lemma submitPOST_ok:
  assumes "combinedReasons dateGetTime lateNowMs data = []"
  shows "submitPOST dateGetTime lateNowMs nowMs rnd c u sub (Some data) store =
     (SubmitOk200 (fst (saveSubmission nowMs rnd c u sub data store)),
      snd (saveSubmission nowMs rnd c u sub data store))"
  using assms
  by (simp add: submitPOST_def combinedReasons_def Let_def split: prod.splits)

lemma example_quotient: "(Fin 100 + Fin 50 + Fin 0) / Fin 10 = Fin 15"
  using Fin_add_nat [of 100 50] Fin_add_nat [of 150 0] Fin_div_nat [of 10 150]
  by simp

lemma exampleInput_complete: "evaluateChecklist exampleInput = []"
  by (simp add: evaluateChecklist_def exampleInput_def trim_def isWhiteSpace_def
        Fin_pos example_quotient)

lemma exampleInput_reasons:
  "combinedReasons exampleDateGetTime 1709254800000 exampleInput = []"
  by (simp add: combinedReasons_def exampleInput_complete isPast24Hours_def exampleDateGetTime_def)
    (simp add: exampleInput_def)

lemma lateInput_reasons:
  "combinedReasons exampleDateGetTime 1709424000000 (exampleInput\<lparr>photos := []\<rparr>) =
     [''At least one supporting photo is required.'',
      ''This change order was submitted after 24 hours and cannot be finalized.'']"
  by (simp add: combinedReasons_def evaluateChecklist_def isPast24Hours_def exampleDateGetTime_def
        exampleInput_def trim_def isWhiteSpace_def Fin_pos example_quotient)

text \<open>
  Claim C4, as stated, fails in its last part: the identifier is made of the clock reading
  and a random draw below 1000, and nothing compares it with the stored ones. A second
  submission at the same reading with the same draw gets the identifier of the first.
\<close>

theorem submitPOST_identifier_counterexample:
  "\<exists>r. submitPOST exampleDateGetTime 1709254800000 5 7 ''t1'' ''t1'' ''t1'' (Some exampleInput)
          submittedStore = (SubmitOk200 r, submittedStore @ [r])
      \<and> orderId r \<in> orderId ` set submittedStore"
  using submittedStore_id
  by (simp add: submitPOST_ok [OF exampleInput_reasons] saveSubmission_def Let_def mintId_5_7)

text \<open>
  Claim C4, amended. A parsed submission appends one record and touches no other. When the
  combined reason list is not empty the record is \<^verbatim>\<open>BLOCKED\<close> and its \<open>blockingReasons\<close>
  are exactly that list, in that order; otherwise it is \<^verbatim>\<open>SUBMITTED\<close> with \<open>submittedAt\<close>
  set. Its identifier is \<open>mintId\<close> of the clock reading and the draw, and no other reading
  or draw gives the same identifier.
\<close>

theorem submitPOST_creates_record:
  "\<exists>r. snd (submitPOST dateGetTime lateNowMs nowMs rnd c u sub (Some data) store) = store @ [r]
     \<and> orderId r = mintId nowMs rnd
     \<and> input r = data
     \<and> (combinedReasons dateGetTime lateNowMs data \<noteq> [] \<longrightarrow>
          fst (submitPOST dateGetTime lateNowMs nowMs rnd c u sub (Some data) store)
            = SubmitBlocked422 r (combinedReasons dateGetTime lateNowMs data)
          \<and> status r = BLOCKED
          \<and> blockingReasons r = Some (combinedReasons dateGetTime lateNowMs data))
     \<and> (combinedReasons dateGetTime lateNowMs data = [] \<longrightarrow>
          fst (submitPOST dateGetTime lateNowMs nowMs rnd c u sub (Some data) store) = SubmitOk200 r
          \<and> status r = SUBMITTED
          \<and> submittedAt r = Some sub)
     \<and> (\<forall>nowMs' rnd'. mintId nowMs' rnd' = orderId r \<longrightarrow> nowMs' = nowMs \<and> rnd' = rnd)"
proof (cases "combinedReasons dateGetTime lateNowMs data = []")
  case True
  show ?thesis
    using True mintId_inj
    by (simp add: submitPOST_ok [OF True] saveSubmission_def Let_def)
next
  case False
  show ?thesis
    using False mintId_inj
    by (simp add: submitPOST_blocked [OF False] saveBlocked_def Let_def)
qed

theorem submitPOST_creates_record_witness:
  "combinedReasons exampleDateGetTime 1709254800000 exampleInput = []
   \<and> (\<exists>r. submitPOST exampleDateGetTime 1709254800000 5 7 ''t0'' ''t0'' ''t0'' (Some exampleInput) []
            = (SubmitOk200 r, [r])
        \<and> status r = SUBMITTED \<and> submittedAt r = Some ''t0'' \<and> orderId r = ''co_5_7'')
   \<and> combinedReasons exampleDateGetTime 1709424000000 (exampleInput\<lparr>photos := []\<rparr>) \<noteq> []
   \<and> (\<exists>r. submitPOST exampleDateGetTime 1709424000000 6 7 ''t1'' ''t1'' ''t1''
              (Some (exampleInput\<lparr>photos := []\<rparr>)) submittedStore
            = (SubmitBlocked422 r
                 [''At least one supporting photo is required.'',
                  ''This change order was submitted after 24 hours and cannot be finalized.''],
               submittedStore @ [r])
        \<and> status r = BLOCKED
        \<and> blockingReasons r = Some
             [''At least one supporting photo is required.'',
              ''This change order was submitted after 24 hours and cannot be finalized.''])"
proof -
  have a: "\<exists>r. submitPOST exampleDateGetTime 1709254800000 5 7 ''t0'' ''t0'' ''t0'' (Some exampleInput) []
            = (SubmitOk200 r, [r])
        \<and> status r = SUBMITTED \<and> submittedAt r = Some ''t0'' \<and> orderId r = ''co_5_7''"
    using submitPOST_creates_record [of exampleDateGetTime 1709254800000 5 7 "''t0''" "''t0''" "''t0''"
        exampleInput "[]"] exampleInput_reasons
    by (auto simp: mintId_5_7 prod_eq_iff)
  have b: "\<exists>r. submitPOST exampleDateGetTime 1709424000000 6 7 ''t1'' ''t1'' ''t1''
              (Some (exampleInput\<lparr>photos := []\<rparr>)) submittedStore
            = (SubmitBlocked422 r (combinedReasons exampleDateGetTime 1709424000000 (exampleInput\<lparr>photos := []\<rparr>)),
               submittedStore @ [r])
        \<and> status r = BLOCKED
        \<and> blockingReasons r = Some (combinedReasons exampleDateGetTime 1709424000000 (exampleInput\<lparr>photos := []\<rparr>))"
    using submitPOST_creates_record [of exampleDateGetTime 1709424000000 6 7 "''t1''" "''t1''" "''t1''"
        "exampleInput\<lparr>photos := []\<rparr>" submittedStore] lateInput_reasons
    by (auto simp: prod_eq_iff)
  from a b show ?thesis
    by (simp add: exampleInput_reasons lateInput_reasons)
qed

subsection \<open>The decision endpoint\<close>

lemma getChangeOrderById_find:
  "getChangeOrderById oid store = find (\<lambda>item. orderId item = oid) store"
  by (simp add: getChangeOrderById_def normalizeRecord_ident split: option.splits)

lemma applyTeamDecision_finalized:
  "findIndex (\<lambda>item. orderId item = oid) store = Some i \<Longrightarrow> isFinalized (store ! i)
     \<Longrightarrow> applyTeamDecision fmt now oid decision store = (Some (store ! i), store)"
  by (simp add: applyTeamDecision_def)

lemma applyTeamDecision_applied:
  assumes i: "findIndex (\<lambda>item. orderId item = oid) store = Some i"
    and nf: "\<not> isFinalized (store ! i)"
  shows "\<exists>r1. applyTeamDecision fmt now oid (decisionOfPayload p) store = (Some r1, store[i := r1])
     \<and> orderId r1 = oid
     \<and> decisionStatus r1 = payloadStatus p
     \<and> isFinalized r1 = (payloadStatus p \<noteq> D_NEEDS_INFO)"
  using i nf findIndex_Some [OF i]
  by (cases p) (simp_all add: applyTeamDecision_def Let_def prepareDecisionEmail_def)

lemma decisionPOST_delivers:
  assumes ex: "find (\<lambda>item. orderId item = oid) store = Some r" and st: "status r = SUBMITTED"
    and ok: "\<not> lateUnacknowledged p"
    and ap: "applyTeamDecision fmt decisionNow oid (decisionOfPayload p) store = (Some r1, store1)"
    and i1: "findIndex (\<lambda>item. orderId item = oid) store1 = Some i"
  shows "\<exists>r2 es url.
     decisionPOST regex fmt send decisionNow sentNow updatedNow oid (Some p) store =
       (DecisionOk200 r2 es url, store1[i := r2])
     \<and> sameDecision r2 (store1 ! i)"
proof (cases "hasValidContractorEmail regex r1")
  case True
  with ex st ok ap show ?thesis
    by (simp add: decisionPOST_def getChangeOrderById_find Let_def
          updateDecisionEmailDelivery_found [OF i1] sameDecision_def)
next
  case False
  with ex st ok ap show ?thesis
    by (simp add: decisionPOST_def getChangeOrderById_find Let_def
          updateDecisionEmailDelivery_found [OF i1] sameDecision_def)
qed


lemma decisionPOST_not_submitted:
  assumes "find (\<lambda>item. orderId item = oid) store = Some r" "status r \<noteq> SUBMITTED"
  shows "decisionPOST regex fmt send decisionNow sentNow updatedNow oid parsed store
       = (DecisionNotSubmitted422, store)"
  using assms by (simp add: decisionPOST_def getChangeOrderById_find)

lemma decisionPOST_finalized:
  assumes ex: "find (\<lambda>item. orderId item = oid) store = Some r" and st: "status r = SUBMITTED"
    and fin: "isFinalized r"
  shows "\<exists>resp store' r'.
       decisionPOST regex fmt send decisionNow sentNow updatedNow oid parsed store = (resp, store')
     \<and> find (\<lambda>item. orderId item = oid) store' = Some r' \<and> sameDecision r' r"
proof -
  from find_findIndex [OF ex] obtain i
    where i: "findIndex (\<lambda>item. orderId item = oid) store = Some i" and r: "store ! i = r"
    by blast
  from findIndex_Some [OF i] r have oid: "orderId r = oid" by simp
  have same: "sameDecision r r" by (simp add: sameDecision_def)
  show ?thesis
  proof (cases parsed)
    case None
    with ex st same show ?thesis
      by (simp add: decisionPOST_def getChangeOrderById_find)
  next
    case (Some p)
    show ?thesis
    proof (cases "lateUnacknowledged p")
      case True
      with Some ex st same show ?thesis
        by (simp add: decisionPOST_def getChangeOrderById_find)
    next
      case False
      from applyTeamDecision_finalized [OF i] fin r
      have ap: "applyTeamDecision fmt decisionNow oid (decisionOfPayload p) store = (Some r, store)"
        by simp
      from decisionPOST_delivers [OF ex st False ap i, of regex send sentNow updatedNow] r
      obtain r2 es url
        where res: "decisionPOST regex fmt send decisionNow sentNow updatedNow oid (Some p) store
                     = (DecisionOk200 r2 es url, store[i := r2])"
          and s2: "sameDecision r2 r"
        by auto
      from s2 oid have "orderId r2 = oid" by (simp add: sameDecision_def)
      from find_update [OF i, of r2] this
      have "find (\<lambda>item. orderId item = oid) (store[i := r2]) = Some r2" by simp
      with res s2 Some show ?thesis by simp
    qed
  qed
qed

lemma decisionPOST_applied:
  assumes ex: "find (\<lambda>item. orderId item = oid) store = Some r" and st: "status r = SUBMITTED"
    and nf: "\<not> isFinalized r" and ok: "\<not> lateUnacknowledged p"
  shows "\<exists>r' es url store'.
       decisionPOST regex fmt send decisionNow sentNow updatedNow oid (Some p) store
         = (DecisionOk200 r' es url, store')
     \<and> find (\<lambda>item. orderId item = oid) store' = Some r'
     \<and> decisionStatus r' = payloadStatus p
     \<and> isFinalized r' = (payloadStatus p \<noteq> D_NEEDS_INFO)"
proof -
  from find_findIndex [OF ex] obtain i
    where i: "findIndex (\<lambda>item. orderId item = oid) store = Some i" and r: "store ! i = r"
    by blast
  from findIndex_Some [OF i] have len: "i < length store" by simp
  from nf r have nfi: "\<not> isFinalized (store ! i)" by simp
  from applyTeamDecision_applied [OF i nfi, of fmt decisionNow p] obtain r1
    where ap: "applyTeamDecision fmt decisionNow oid (decisionOfPayload p) store = (Some r1, store[i := r1])"
      and oid1: "orderId r1 = oid"
      and ds: "decisionStatus r1 = payloadStatus p"
      and fi: "isFinalized r1 = (payloadStatus p \<noteq> D_NEEDS_INFO)"
    by blast
  from findIndex_update [OF i, of r1] oid1
  have i1: "findIndex (\<lambda>item. orderId item = oid) (store[i := r1]) = Some i" by simp
  from decisionPOST_delivers [OF ex st ok ap i1, of regex send sentNow updatedNow] len
  obtain r2 es url
    where res: "decisionPOST regex fmt send decisionNow sentNow updatedNow oid (Some p) store
                 = (DecisionOk200 r2 es url, store[i := r2])"
      and s2: "sameDecision r2 r1"
    by auto
  from s2 oid1 have "orderId r2 = oid" by (simp add: sameDecision_def)
  from find_update [OF i, of r2] this
  have "find (\<lambda>item. orderId item = oid) (store[i := r2]) = Some r2" by simp
  with res s2 ds fi show ?thesis by (simp add: sameDecision_def)
qed

lemma blockedStore_facts:
  "find (\<lambda>item. orderId item = ''co_5_7'') blockedStore = Some (blockedStore ! 0)"
  "status (blockedStore ! 0) = BLOCKED"
  "\<not> isFinalized (blockedStore ! 0)"
  by (simp_all add: blockedStore_def saveBlocked_def Let_def mintId_5_7)

text \<open>
  The decision endpoint, for a record that the store resolves the identifier to. When its
  submission status is not \<^verbatim>\<open>SUBMITTED\<close> every request is refused with 422 and the store is
  unchanged. When it is \<^verbatim>\<open>SUBMITTED\<close>: a payload that does not parse is refused with 400 and
  an approval flagged late without the acknowledgment with 422, the store unchanged in
  both; on a finalized record nothing that a decision writes changes; on a record that is
  not finalized each of the three actions (an approval flagged late with the
  acknowledgment) is applied and the stored record carries its decision status, finalized
  exactly for approve and deny.
\<close>

lemma decisionPOST_gate:
  assumes "find (\<lambda>item. orderId item = oid) store = Some r"
  shows "(status r \<noteq> SUBMITTED \<longrightarrow>
            decisionPOST regex fmt send decisionNow sentNow updatedNow oid parsed store
              = (DecisionNotSubmitted422, store))
     \<and> (status r = SUBMITTED \<longrightarrow>
            decisionPOST regex fmt send decisionNow sentNow updatedNow oid None store
              = (DecisionInvalid400, store))
     \<and> (status r = SUBMITTED \<and> lateUnacknowledged p \<longrightarrow>
            decisionPOST regex fmt send decisionNow sentNow updatedNow oid (Some p) store
              = (DecisionLateUnacknowledged422, store))
     \<and> (status r = SUBMITTED \<and> isFinalized r \<longrightarrow>
          (\<exists>resp store' r'.
              decisionPOST regex fmt send decisionNow sentNow updatedNow oid parsed store = (resp, store')
            \<and> find (\<lambda>item. orderId item = oid) store' = Some r' \<and> sameDecision r' r))
     \<and> (status r = SUBMITTED \<and> \<not> isFinalized r \<and> \<not> lateUnacknowledged p \<longrightarrow>
          (\<exists>r' es url store'.
              decisionPOST regex fmt send decisionNow sentNow updatedNow oid (Some p) store
                = (DecisionOk200 r' es url, store')
            \<and> find (\<lambda>item. orderId item = oid) store' = Some r'
            \<and> decisionStatus r' = payloadStatus p
            \<and> isFinalized r' = (payloadStatus p \<noteq> D_NEEDS_INFO)))"
proof (intro conjI impI)
  assume "status r \<noteq> SUBMITTED"
  with assms show "decisionPOST regex fmt send decisionNow sentNow updatedNow oid parsed store
              = (DecisionNotSubmitted422, store)"
    by (rule decisionPOST_not_submitted)
next
  assume "status r = SUBMITTED"
  with assms show "decisionPOST regex fmt send decisionNow sentNow updatedNow oid None store
              = (DecisionInvalid400, store)"
    by (simp add: decisionPOST_def getChangeOrderById_find)
next
  assume "status r = SUBMITTED \<and> lateUnacknowledged p"
  with assms show "decisionPOST regex fmt send decisionNow sentNow updatedNow oid (Some p) store
              = (DecisionLateUnacknowledged422, store)"
    by (simp add: decisionPOST_def getChangeOrderById_find)
next
  assume "status r = SUBMITTED \<and> isFinalized r"
  then show "\<exists>resp store' r'.
              decisionPOST regex fmt send decisionNow sentNow updatedNow oid parsed store = (resp, store')
            \<and> find (\<lambda>item. orderId item = oid) store' = Some r' \<and> sameDecision r' r"
    using decisionPOST_finalized [OF assms] by blast
next
  assume "status r = SUBMITTED \<and> \<not> isFinalized r \<and> \<not> lateUnacknowledged p"
  then show "\<exists>r' es url store'.
              decisionPOST regex fmt send decisionNow sentNow updatedNow oid (Some p) store
                = (DecisionOk200 r' es url, store')
            \<and> find (\<lambda>item. orderId item = oid) store' = Some r'
            \<and> decisionStatus r' = payloadStatus p
            \<and> isFinalized r' = (payloadStatus p \<noteq> D_NEEDS_INFO)"
    using decisionPOST_applied [OF assms] by blast
qed

lemma approvedStore_record:
  "status (approvedStore ! 0) = SUBMITTED" "decisionStatus (approvedStore ! 0) = D_APPROVED"
  by (simp_all add: approvedStore_def applyTeamDecision_def submittedStore_find Let_def
        prepareDecisionEmail_def submittedStore_def saveSubmission_def mintId_5_7)

lemma decisionPOST_gate_example:
  "find (\<lambda>item. orderId item = ''co_5_7'') blockedStore = Some (blockedStore ! 0)
   \<and> status (blockedStore ! 0) \<noteq> SUBMITTED
   \<and> decisionPOST (\<lambda>s. True) exampleToFixed2
        (\<lambda>m. \<lparr>sent = True, resultMode = Some Smtp, resultPreviewUrl = None, resultError = None\<rparr>)
        ''t1'' ''t2'' ''t3'' ''co_5_7'' (Some needsInfoPayload) blockedStore
      = (DecisionNotSubmitted422, blockedStore)
   \<and> find (\<lambda>item. orderId item = ''co_5_7'') submittedStore = Some (submittedStore ! 0)
   \<and> status (submittedStore ! 0) = SUBMITTED \<and> \<not> isFinalized (submittedStore ! 0)
   \<and> \<not> lateUnacknowledged needsInfoPayload
   \<and> (\<exists>r' es url store'.
          decisionPOST (\<lambda>s. True) exampleToFixed2
            (\<lambda>m. \<lparr>sent = True, resultMode = Some Smtp, resultPreviewUrl = None, resultError = None\<rparr>)
            ''t1'' ''t2'' ''t3'' ''co_5_7'' (Some needsInfoPayload) submittedStore
          = (DecisionOk200 r' es url, store')
        \<and> decisionStatus r' = D_NEEDS_INFO \<and> \<not> isFinalized r')
   \<and> decisionPOST (\<lambda>s. True) exampleToFixed2
        (\<lambda>m. \<lparr>sent = True, resultMode = Some Smtp, resultPreviewUrl = None, resultError = None\<rparr>)
        ''t1'' ''t2'' ''t3'' ''co_5_7'' (Some (PayloadAPPROVE ''Sam'' 120 ''Checked on site'' [] False True))
        submittedStore
      = (DecisionLateUnacknowledged422, submittedStore)
   \<and> find (\<lambda>item. orderId item = ''co_5_7'') approvedStore = Some (approvedStore ! 0)
   \<and> status (approvedStore ! 0) = SUBMITTED \<and> isFinalized (approvedStore ! 0)
   \<and> (\<exists>resp store' r'.
          decisionPOST (\<lambda>s. True) exampleToFixed2
            (\<lambda>m. \<lparr>sent = True, resultMode = Some Smtp, resultPreviewUrl = None, resultError = None\<rparr>)
            ''t4'' ''t5'' ''t6'' ''co_5_7''
            (Some (PayloadDENY ''Sam'' DUPLICATE_REQUEST ''Second thoughts'' [])) approvedStore
          = (resp, store')
        \<and> find (\<lambda>item. orderId item = ''co_5_7'') store' = Some r'
        \<and> decisionStatus r' = D_APPROVED \<and> isFinalized r')"
proof -
  let ?send = "\<lambda>m::EmailMessage. \<lparr>sent = True, resultMode = Some Smtp, resultPreviewUrl = None,
                 resultError = None\<rparr>"
  have s: "find (\<lambda>item. orderId item = ''co_5_7'') submittedStore = Some (submittedStore ! 0)"
    using findIndex_Some [OF submittedStore_find] by simp
  have l: "\<not> lateUnacknowledged needsInfoPayload"
    by (simp add: needsInfoPayload_def)
  have a: "decisionPOST (\<lambda>s. True) exampleToFixed2 ?send
        ''t1'' ''t2'' ''t3'' ''co_5_7'' (Some needsInfoPayload) blockedStore
      = (DecisionNotSubmitted422, blockedStore)"
    using decisionPOST_gate [OF blockedStore_facts(1)] blockedStore_facts(2) by simp
  have b: "\<exists>r' es url store'.
          decisionPOST (\<lambda>s. True) exampleToFixed2 ?send
            ''t1'' ''t2'' ''t3'' ''co_5_7'' (Some needsInfoPayload) submittedStore
          = (DecisionOk200 r' es url, store')
        \<and> decisionStatus r' = D_NEEDS_INFO \<and> \<not> isFinalized r'"
    using decisionPOST_gate [OF s, where p = needsInfoPayload and regex = "\<lambda>s. True"
        and fmt = exampleToFixed2 and send = ?send and decisionNow = "''t1''" and sentNow = "''t2''"
        and updatedNow = "''t3''"]
      submittedStore_record(1,3) l
    by (auto simp: needsInfoPayload_def)
  have late: "decisionPOST (\<lambda>s. True) exampleToFixed2 ?send
        ''t1'' ''t2'' ''t3'' ''co_5_7'' (Some (PayloadAPPROVE ''Sam'' 120 ''Checked on site'' [] False True))
        submittedStore
      = (DecisionLateUnacknowledged422, submittedStore)"
    using decisionPOST_gate [OF s, where p = "PayloadAPPROVE ''Sam'' 120 ''Checked on site'' [] False True"
        and regex = "\<lambda>s. True"
        and fmt = exampleToFixed2 and send = ?send and decisionNow = "''t1''" and sentNow = "''t2''"
        and updatedNow = "''t3''"]
      submittedStore_record(1,3)
    by simp
  have c: "\<exists>resp store' r'.
          decisionPOST (\<lambda>s. True) exampleToFixed2 ?send ''t4'' ''t5'' ''t6'' ''co_5_7''
            (Some (PayloadDENY ''Sam'' DUPLICATE_REQUEST ''Second thoughts'' [])) approvedStore
          = (resp, store')
        \<and> find (\<lambda>item. orderId item = ''co_5_7'') store' = Some r'
        \<and> decisionStatus r' = D_APPROVED \<and> isFinalized r'"
    using decisionPOST_gate [OF approvedStore_facts(1), where regex = "\<lambda>s. True"
        and fmt = exampleToFixed2 and send = ?send and decisionNow = "''t4''" and sentNow = "''t5''"
        and updatedNow = "''t6''"
        and parsed = "Some (PayloadDENY ''Sam'' DUPLICATE_REQUEST ''Second thoughts'' [])",
        THEN conjunct2, THEN conjunct2, THEN conjunct2, THEN conjunct1]
      approvedStore_record approvedStore_facts(2)
    by (auto simp: sameDecision_def)
  from a b late c s l show ?thesis
    using blockedStore_facts submittedStore_record(1,3) approvedStore_facts(1,2) approvedStore_record(1)
    by simp
qed

lemma blockedStore_findIndex:
  "findIndex (\<lambda>item. orderId item = ''co_5_7'') blockedStore = Some 0"
  by (simp add: blockedStore_def saveBlocked_def Let_def mintId_5_7)

lemma reachable_blockedStore: "reachable fmt blockedStore"
  unfolding blockedStore_def by (intro reachable.intros)

text \<open>
  Claim C5 says that a needs-info decision is accepted for any record that is not
  finalized, whatever its submission status. \<open>applyTeamDecision\<close> has no condition on the
  submission status and applies it, and the review queue offers the action on every record
  that is not finalized; the decision endpoint between the two refuses every request for a
  record that is not \<^verbatim>\<open>SUBMITTED\<close> before it looks at the action. On the reachable store
  \<open>blockedStore\<close> (one blocked record, not finalized) the endpoint answers a needs-info
  decision with 422 and leaves the store as it is, whatever the e-mail grammar, number
  format and transport, where \<open>applyTeamDecision\<close> with the same decision records the
  request for information.
\<close>

theorem decisionPOST_refuses_needs_info:
  "reachable exampleToFixed2 blockedStore
   \<and> find (\<lambda>item. orderId item = ''co_5_7'') blockedStore = Some (blockedStore ! 0)
   \<and> status (blockedStore ! 0) = BLOCKED
   \<and> \<not> isFinalized (blockedStore ! 0)
   \<and> (\<forall>regex fmt send.
         decisionPOST regex fmt send ''t1'' ''t2'' ''t3'' ''co_5_7'' (Some needsInfoPayload) blockedStore
           = (DecisionNotSubmitted422, blockedStore))
   \<and> (\<forall>fmt. \<exists>r1.
         applyTeamDecision fmt ''t1'' ''co_5_7'' (decisionOfPayload needsInfoPayload) blockedStore
           = (Some r1, blockedStore[0 := r1])
         \<and> status r1 = BLOCKED
         \<and> teamStatus r1 = T_NEEDS_INFO
         \<and> decisionStatus r1 = D_NEEDS_INFO
         \<and> needsInfoChecklist r1 = [''Photo of the roof'']
         \<and> \<not> isFinalized r1)"
proof -
  have "\<exists>r1.
         applyTeamDecision fmt ''t1'' ''co_5_7'' (decisionOfPayload needsInfoPayload) blockedStore
           = (Some r1, blockedStore[0 := r1])
         \<and> status r1 = BLOCKED
         \<and> teamStatus r1 = T_NEEDS_INFO
         \<and> decisionStatus r1 = D_NEEDS_INFO
         \<and> needsInfoChecklist r1 = [''Photo of the roof'']
         \<and> \<not> isFinalized r1" for fmt
    using blockedStore_facts(2,3)
    by (simp add: applyTeamDecision_def blockedStore_findIndex needsInfoPayload_def Let_def
          prepareDecisionEmail_def)
  then show ?thesis
    using reachable_blockedStore blockedStore_facts
      decisionPOST_not_submitted [OF blockedStore_facts(1)]
    by simp
qed

end
